theory Spec2Isabelle
  imports Main "HOL-Library.Monad_Syntax"
begin

section \<open>JavaScript values\<close>

text \<open>
  The values a field of the program can hold. A saved game is whatever \<open>JSON.parse\<close>
  returns, so the whole shape is kept: \<open>undefined\<close> (an absent property, an index past
  the end), \<open>null\<close>, booleans, numbers, strings, arrays and objects (an object is the list
  of its own properties). Numbers are integers here: the program only tests them for
  truthiness and uses them as board coordinates.

  \<open>===\<close> is HOL equality. That is exact on \<open>undefined\<close>, \<open>null\<close>, booleans, numbers and
  strings, which is what the piece types and sides written by the program are
  (\<open>'K'\<close>, \<open>'red'\<close>, ...).
\<close>

datatype jsval =
    JUndefined
  | JNull
  | JBool bool
  | JNum int
  | JStr string
  | JArr "jsval list"
  | JObj "(string \<times> jsval) list"

datatype js_error = TypeError | Error

text \<open>Truthiness, as \<open>!x\<close> and \<open>x ? a : b\<close> use it.\<close>

fun truthy :: "jsval \<Rightarrow> bool" where
  "truthy JUndefined = False"
| "truthy JNull = False"
| "truthy (JBool v) = v"
| "truthy (JNum n) = (n \<noteq> 0)"
| "truthy (JStr s) = (s \<noteq> [])"
| "truthy (JArr xs) = True"
| "truthy (JObj kvs) = True"

fun isArray :: "jsval \<Rightarrow> bool" where
  "isArray (JArr xs) = True"
| "isArray v = False"

text \<open>
  \<open>v.name\<close> for a property name that is not an index and not \<open>length\<close>: a TypeError on
  \<open>undefined\<close> and \<open>null\<close>, the property of an object, \<open>undefined\<close> on everything else.
\<close>

fun jsProp :: "jsval \<Rightarrow> string \<Rightarrow> js_error + jsval" where
  "jsProp JUndefined name = Inl TypeError"
| "jsProp JNull name = Inl TypeError"
| "jsProp (JObj kvs) name = (case map_of kvs name of Some v \<Rightarrow> Inr v | None \<Rightarrow> Inr JUndefined)"
| "jsProp v name = Inr JUndefined"

text \<open>The decimal name of an index, the property name \<open>obj[i]\<close> looks up.\<close>

fun digitChar :: "nat \<Rightarrow> char" where
  "digitChar n = char_of (48 + n)"

fun indexName :: "nat \<Rightarrow> string" where
  "indexName n = (if n < 10 then [digitChar n] else indexName (n div 10) @ [digitChar (n mod 10)])"

text \<open>
  \<open>v[i]\<close> for an index \<open>i \<ge> 0\<close>: a TypeError on \<open>undefined\<close> and \<open>null\<close>, the element of
  an array or the character of a string when there is one, the property named by the
  index on an object, \<open>undefined\<close> otherwise.
\<close>

fun jsIndex :: "jsval \<Rightarrow> nat \<Rightarrow> js_error + jsval" where
  "jsIndex JUndefined i = Inl TypeError"
| "jsIndex JNull i = Inl TypeError"
| "jsIndex (JArr xs) i = (if i < length xs then Inr (xs ! i) else Inr JUndefined)"
| "jsIndex (JStr s) i = (if i < length s then Inr (JStr [s ! i]) else Inr JUndefined)"
| "jsIndex (JObj kvs) i = (case map_of kvs (indexName i) of Some v \<Rightarrow> Inr v | None \<Rightarrow> Inr JUndefined)"
| "jsIndex v i = Inr JUndefined"

section \<open>Configuration\<close>

text \<open>\<open>CONFIG.rows\<close> and \<open>CONFIG.cols\<close>, the defaults of \<open>config.js\<close>.\<close>

definition CONFIG_rows :: int where
  "CONFIG_rows = 10"

definition CONFIG_cols :: int where
  "CONFIG_cols = 9"

section \<open>Pieces and the board\<close>

text \<open>
  \<open>class Piece\<close>: a type (\<open>'K'|'A'|'E'|'H'|'R'|'C'|'S'\<close>) and a side
  (\<open>'red'|'black'\<close>). The constructor stores whatever it is given, so both are values.
\<close>

record piece =
  ptype :: jsval
  pside :: jsval

type_synonym cell = "piece option"

abbreviation red :: jsval where
  "red \<equiv> JStr ''red''"

abbreviation black :: jsval where
  "black \<equiv> JStr ''black''"

text \<open>
  \<open>class Board\<close>: \<open>rows\<close>, \<open>cols\<close> and the grid, an array of \<open>rows\<close> arrays of \<open>cols\<close>
  cells, each a Piece or \<open>null\<close>.
\<close>

record board =
  rows :: int
  cols :: int
  grid :: "cell list list"

text \<open>
  The constructor builds a grid of \<open>rows\<close> by \<open>cols\<close> cells, and every method keeps that
  shape. \<open>wfBoard\<close> is this invariant; on a board that has it no grid access of the
  methods below is out of range.
\<close>

definition wfBoard :: "board \<Rightarrow> bool" where
  "wfBoard b =
     (0 \<le> rows b \<and> 0 \<le> cols b \<and> length (grid b) = nat (rows b) \<and>
      list_all (\<lambda>row. length row = nat (cols b)) (grid b))"

definition newBoard :: "int \<Rightarrow> int \<Rightarrow> board" where
  "newBoard nrows ncols =
     \<lparr>rows = nrows, cols = ncols, grid = replicate (nat nrows) (replicate (nat ncols) None)\<rparr>"

text \<open>\<open>Utils.inBounds(row, col, rows, cols)\<close>.\<close>

definition inBounds :: "int \<Rightarrow> int \<Rightarrow> int \<Rightarrow> int \<Rightarrow> bool" where
  "inBounds row col nrows ncols = (row \<ge> 0 \<and> row < nrows \<and> col \<ge> 0 \<and> col < ncols)"

definition getPiece :: "board \<Rightarrow> int \<Rightarrow> int \<Rightarrow> cell" where
  "getPiece b row col =
     (if \<not> inBounds row col (rows b) (cols b) then None
      else grid b ! nat row ! nat col)"

definition setPiece :: "board \<Rightarrow> int \<Rightarrow> int \<Rightarrow> cell \<Rightarrow> board" where
  "setPiece b row col p =
     (if \<not> inBounds row col (rows b) (cols b) then b
      else b\<lparr>grid := (grid b)[nat row := (grid b ! nat row)[nat col := p]]\<rparr>)"

text \<open>
  \<open>movePiece\<close> changes the board in place and returns \<open>{ captured }\<close>; here it returns
  the board after the call together with \<open>captured\<close>.
\<close>

definition movePiece :: "board \<Rightarrow> int \<Rightarrow> int \<Rightarrow> int \<Rightarrow> int \<Rightarrow> board \<times> cell" where
  "movePiece b fromRow fromCol toRow toCol =
     (if \<not> inBounds fromRow fromCol (rows b) (cols b) then (b, None)
      else if \<not> inBounds toRow toCol (rows b) (cols b) then (b, None)
      else
        let piece = getPiece b fromRow fromCol;
            captured = getPiece b toRow toCol;
            b1 = setPiece b toRow toCol piece;
            b2 = setPiece b1 fromRow fromCol None
        in (b2, captured))"

definition clonePiece :: "cell \<Rightarrow> cell" where
  "clonePiece c = (case c of Some p \<Rightarrow> Some \<lparr>ptype = ptype p, pside = pside p\<rparr> | None \<Rightarrow> None)"

definition clone :: "board \<Rightarrow> board" where
  "clone b = \<lparr>rows = rows b, cols = cols b, grid = map (map clonePiece) (grid b)\<rparr>"

text \<open>
  The cells a row-major double loop \<open>for r < rows, for c < cols\<close> visits, in order.
\<close>

definition allCoords :: "int \<Rightarrow> int \<Rightarrow> (int \<times> int) list" where
  "allCoords nrows ncols = concat (map (\<lambda>r. map (\<lambda>c. (r, c)) [0..ncols - 1]) [0..nrows - 1])"

definition isGeneralOf :: "jsval \<Rightarrow> cell \<Rightarrow> bool" where
  "isGeneralOf sd c = (case c of Some p \<Rightarrow> ptype p = JStr ''K'' \<and> pside p = sd | None \<Rightarrow> False)"

definition getGeneralPosition :: "board \<Rightarrow> jsval \<Rightarrow> (int \<times> int) option" where
  "getGeneralPosition b sd =
     find (\<lambda>(r, c). isGeneralOf sd (grid b ! nat r ! nat c)) (allCoords (rows b) (cols b))"

text \<open>
  \<open>setupInitial\<close>: every cell is cleared, then the thirty-two pieces are placed with
  \<open>setPiece\<close>, Black first.
\<close>

definition clearGrid :: "board \<Rightarrow> board" where
  "clearGrid b = b\<lparr>grid := map (map (\<lambda>cell. None)) (grid b)\<rparr>"

definition initialPlacement :: "(int \<times> int \<times> string \<times> jsval) list" where
  "initialPlacement =
     [(0, 0, ''R'', black), (0, 1, ''H'', black), (0, 2, ''E'', black), (0, 3, ''A'', black),
      (0, 4, ''K'', black), (0, 5, ''A'', black), (0, 6, ''E'', black), (0, 7, ''H'', black),
      (0, 8, ''R'', black),
      (2, 1, ''C'', black), (2, 7, ''C'', black),
      (3, 0, ''S'', black), (3, 2, ''S'', black), (3, 4, ''S'', black), (3, 6, ''S'', black),
      (3, 8, ''S'', black),
      (9, 0, ''R'', red), (9, 1, ''H'', red), (9, 2, ''E'', red), (9, 3, ''A'', red),
      (9, 4, ''K'', red), (9, 5, ''A'', red), (9, 6, ''E'', red), (9, 7, ''H'', red),
      (9, 8, ''R'', red),
      (7, 1, ''C'', red), (7, 7, ''C'', red),
      (6, 0, ''S'', red), (6, 2, ''S'', red), (6, 4, ''S'', red), (6, 6, ''S'', red),
      (6, 8, ''S'', red)]"

definition setupInitial :: "board \<Rightarrow> board" where
  "setupInitial b =
     fold (\<lambda>(r, c, t, sd) bd. setPiece bd r c (Some \<lparr>ptype = JStr t, pside = sd\<rparr>))
       initialPlacement (clearGrid b)"

section \<open>Utilities\<close>

text \<open>
  The counting loop of \<open>countPiecesBetween\<close>,
  \<open>for (let i = from + step; i !== to; i += step) if (piece at i) cnt++\<close>. It stops only
  when the index meets \<open>to\<close>, so it is a partial function: \<open>None\<close> is a loop that never
  ends. \<open>at\<close> reads the cell of the line at an index.
\<close>

partial_function (option) countLoop :: "(int \<Rightarrow> cell) \<Rightarrow> int \<Rightarrow> int \<Rightarrow> int \<Rightarrow> int \<Rightarrow> int option" where
  "countLoop at i step stop cnt =
     (if i \<noteq> stop then countLoop at (i + step) step stop (if at i \<noteq> None then cnt + 1 else cnt)
      else Some cnt)"

declare countLoop.simps [code]

definition countPiecesBetween :: "board \<Rightarrow> int \<Rightarrow> int \<Rightarrow> int \<Rightarrow> int \<Rightarrow> int option" where
  "countPiecesBetween b fromRow fromCol toRow toCol =
     (if fromRow = toRow then
        let step = (if fromCol < toCol then 1 else -1)
        in countLoop (\<lambda>c. getPiece b fromRow c) (fromCol + step) step toCol 0
      else if fromCol = toCol then
        let step = (if fromRow < toRow then 1 else -1)
        in countLoop (\<lambda>r. getPiece b r fromCol) (fromRow + step) step toRow 0
      else Some (-1))"

definition pathClear :: "board \<Rightarrow> int \<Rightarrow> int \<Rightarrow> int \<Rightarrow> int \<Rightarrow> bool option" where
  "pathClear b fromRow fromCol toRow toCol =
     do { between \<leftarrow> countPiecesBetween b fromRow fromCol toRow toCol; Some (between = 0) }"

definition inPalace :: "int \<Rightarrow> int \<Rightarrow> jsval \<Rightarrow> bool" where
  "inPalace row col sd =
     (if col < 3 \<or> col > 5 then False
      else if sd = red then row \<ge> 7 \<and> row \<le> 9
      else row \<ge> 0 \<and> row \<le> 2)"

definition sign :: "int \<Rightarrow> int" where
  "sign n = (if n = 0 then 0 else if n > 0 then 1 else -1)"

section \<open>Rules\<close>

text \<open>\<open>target && target.side === piece.side\<close>.\<close>

definition sameSide :: "cell \<Rightarrow> piece \<Rightarrow> bool" where
  "sameSide target piece = (case target of Some t \<Rightarrow> pside t = pside piece | None \<Rightarrow> False)"

definition canBasicMove :: "board \<Rightarrow> piece \<Rightarrow> int \<Rightarrow> int \<Rightarrow> int \<Rightarrow> int \<Rightarrow> bool option" where
  "canBasicMove b piece fromRow fromCol toRow toCol =
     (if fromRow = toRow \<and> fromCol = toCol then Some False
      else if \<not> inBounds toRow toCol CONFIG_rows CONFIG_cols then Some False
      else
        let target = getPiece b toRow toCol in
        if sameSide target piece then Some False
        else
          let dr = toRow - fromRow;
              dc = toCol - fromCol;
              adr = \<bar>dr\<bar>;
              adc = \<bar>dc\<bar>
          in
          if ptype piece = JStr ''K'' then
            (if \<not> inPalace toRow toCol (pside piece) then Some False
             else Some (adr + adc = 1))
          else if ptype piece = JStr ''A'' then
            (if \<not> inPalace toRow toCol (pside piece) then Some False
             else Some (adr = 1 \<and> adc = 1))
          else if ptype piece = JStr ''E'' then
            (if \<not> (adr = 2 \<and> adc = 2) then Some False
             else
               let midRow = fromRow + sign dr;
                   midCol = fromCol + sign dc
               in
               if getPiece b midRow midCol \<noteq> None then Some False
               else if pside piece = red \<and> toRow \<le> 4 then Some False
               else if pside piece = black \<and> toRow \<ge> 5 then Some False
               else Some True)
          else if ptype piece = JStr ''H'' then
            (if \<not> ((adr = 2 \<and> adc = 1) \<or> (adr = 1 \<and> adc = 2)) then Some False
             else if adr = 2 \<and> adc = 1 then
               (let blockRow = fromRow + sign dr
                in if getPiece b blockRow fromCol \<noteq> None then Some False else Some True)
             else
               (let blockCol = fromCol + sign dc
                in if getPiece b fromRow blockCol \<noteq> None then Some False else Some True))
          else if ptype piece = JStr ''R'' then
            (if \<not> (fromRow = toRow \<or> fromCol = toCol) then Some False
             else pathClear b fromRow fromCol toRow toCol)
          else if ptype piece = JStr ''C'' then
            (if \<not> (fromRow = toRow \<or> fromCol = toCol) then Some False
             else
               do {
                 between \<leftarrow> countPiecesBetween b fromRow fromCol toRow toCol;
                 if target = None then Some (between = 0) else Some (between = 1)
               })
          else if ptype piece = JStr ''S'' then
            (let dir = (if pside piece = red then -1 else 1);
                 crossedRiver = (if pside piece = red then fromRow \<le> 4 else fromRow \<ge> 5)
             in
             if adr + adc \<noteq> 1 then Some False
             else if dr = dir \<and> dc = 0 then Some True
             else if crossedRiver \<and> dr = 0 \<and> \<bar>dc\<bar> = 1 then Some True
             else Some False)
          else Some False)"

definition isFacingGeneral :: "board \<Rightarrow> bool option" where
  "isFacingGeneral b =
     (case getGeneralPosition b red of
        None \<Rightarrow> Some False
      | Some (redRow, redCol) \<Rightarrow>
          (case getGeneralPosition b black of
             None \<Rightarrow> Some False
           | Some (blackRow, blackCol) \<Rightarrow>
               if redCol \<noteq> blackCol then Some False
               else do {
                 between \<leftarrow> countPiecesBetween b redRow redCol blackRow blackCol;
                 Some (between = 0)
               }))"

definition canPieceAttackSquare :: "board \<Rightarrow> piece \<Rightarrow> int \<Rightarrow> int \<Rightarrow> int \<Rightarrow> int \<Rightarrow> bool option" where
  "canPieceAttackSquare b piece fromRow fromCol toRow toCol =
     canBasicMove b piece fromRow fromCol toRow toCol"

text \<open>
  The double loop of \<open>isInCheck\<close> over the cells still to visit: empty cells and the
  side's own pieces are skipped, the first piece that can attack the target returns
  true.
\<close>

fun attackScan :: "board \<Rightarrow> jsval \<Rightarrow> int \<Rightarrow> int \<Rightarrow> (int \<times> int) list \<Rightarrow> bool option" where
  "attackScan b sd targetRow targetCol [] = Some False"
| "attackScan b sd targetRow targetCol ((r, c) # rest) =
     (case getPiece b r c of
        None \<Rightarrow> attackScan b sd targetRow targetCol rest
      | Some p \<Rightarrow>
          if pside p = sd then attackScan b sd targetRow targetCol rest
          else do {
            hit \<leftarrow> canPieceAttackSquare b p r c targetRow targetCol;
            if hit then Some True else attackScan b sd targetRow targetCol rest
          })"

definition isInCheck :: "board \<Rightarrow> jsval \<Rightarrow> bool option" where
  "isInCheck b sd =
     (case getGeneralPosition b sd of
        None \<Rightarrow> Some False
      | Some (targetRow, targetCol) \<Rightarrow>
          attackScan b sd targetRow targetCol (allCoords (rows b) (cols b)))"

text \<open>The board \<open>isLegalMove\<close> examines: a clone of the board with the move applied.\<close>

definition simulateMove :: "board \<Rightarrow> int \<Rightarrow> int \<Rightarrow> int \<Rightarrow> int \<Rightarrow> board" where
  "simulateMove b fromRow fromCol toRow toCol = fst (movePiece (clone b) fromRow fromCol toRow toCol)"

definition isLegalMove :: "board \<Rightarrow> int \<Rightarrow> int \<Rightarrow> int \<Rightarrow> int \<Rightarrow> jsval \<Rightarrow> bool option" where
  "isLegalMove b fromRow fromCol toRow toCol sd =
     (case getPiece b fromRow fromCol of
        None \<Rightarrow> Some False
      | Some piece \<Rightarrow>
          if pside piece \<noteq> sd then Some False
          else do {
            basic \<leftarrow> canBasicMove b piece fromRow fromCol toRow toCol;
            if \<not> basic then Some False
            else
              let nb = simulateMove b fromRow fromCol toRow toCol in
              do {
                facing \<leftarrow> isFacingGeneral nb;
                if facing then Some False
                else do {
                  inCheck \<leftarrow> isInCheck nb sd;
                  if inCheck then Some False else Some True
                }
              }
          })"

text \<open>The double loop of \<open>getLegalMovesForPiece\<close> over the destinations still to try.\<close>

fun legalDestinations :: "board \<Rightarrow> int \<Rightarrow> int \<Rightarrow> jsval \<Rightarrow> (int \<times> int) list \<Rightarrow> (int \<times> int) list option" where
  "legalDestinations b row col sd [] = Some []"
| "legalDestinations b row col sd ((r, c) # rest) =
     do {
       legal \<leftarrow> isLegalMove b row col r c sd;
       moves \<leftarrow> legalDestinations b row col sd rest;
       Some (if legal then (r, c) # moves else moves)
     }"

definition getLegalMovesForPiece :: "board \<Rightarrow> int \<Rightarrow> int \<Rightarrow> (int \<times> int) list option" where
  "getLegalMovesForPiece b row col =
     (case getPiece b row col of
        None \<Rightarrow> Some []
      | Some piece \<Rightarrow> legalDestinations b row col (pside piece) (allCoords (rows b) (cols b)))"

text \<open>The double loop of \<open>generateLegalMoves\<close> over the origins still to try.\<close>

fun movesFrom :: "board \<Rightarrow> jsval \<Rightarrow> (int \<times> int) list \<Rightarrow> ((int \<times> int) \<times> (int \<times> int)) list option" where
  "movesFrom b sd [] = Some []"
| "movesFrom b sd ((r, c) # rest) =
     (case getPiece b r c of
        None \<Rightarrow> movesFrom b sd rest
      | Some p \<Rightarrow>
          if pside p \<noteq> sd then movesFrom b sd rest
          else do {
            moves \<leftarrow> getLegalMovesForPiece b r c;
            more \<leftarrow> movesFrom b sd rest;
            Some (map (\<lambda>m. ((r, c), m)) moves @ more)
          })"

definition generateLegalMoves :: "board \<Rightarrow> jsval \<Rightarrow> ((int \<times> int) \<times> (int \<times> int)) list option" where
  "generateLegalMoves b sd = movesFrom b sd (allCoords (rows b) (cols b))"

definition isCheckmate :: "board \<Rightarrow> jsval \<Rightarrow> bool option" where
  "isCheckmate b sd =
     do {
       inCheck \<leftarrow> isInCheck b sd;
       if \<not> inCheck then Some False
       else do { legal \<leftarrow> generateLegalMoves b sd; Some (length legal = 0) }
     }"

definition isStalemate :: "board \<Rightarrow> jsval \<Rightarrow> bool option" where
  "isStalemate b sd =
     do {
       inCheck \<leftarrow> isInCheck b sd;
       if inCheck then Some False
       else do { legal \<leftarrow> generateLegalMoves b sd; Some (length legal = 0) }
     }"

section \<open>The rules in the words of the specification\<close>

text \<open>
  The number of pieces strictly between two squares of one row or one column, counted
  over the squares between them and not by the loop of \<open>countPiecesBetween\<close>.
\<close>

definition piecesStrictlyBetween :: "board \<Rightarrow> int \<Rightarrow> int \<Rightarrow> int \<Rightarrow> int \<Rightarrow> nat" where
  "piecesStrictlyBetween b fromRow fromCol toRow toCol =
     (if fromRow = toRow then
        length (filter (\<lambda>c. getPiece b fromRow c \<noteq> None) [min fromCol toCol + 1..max fromCol toCol - 1])
      else
        length (filter (\<lambda>r. getPiece b r fromCol \<noteq> None) [min fromRow toRow + 1..max fromRow toRow - 1]))"

text \<open>
  The two Generals stand on the same column with no piece strictly between them.
\<close>

definition generalsFacing :: "board \<Rightarrow> bool" where
  "generalsFacing b =
     (case getGeneralPosition b red of
        None \<Rightarrow> False
      | Some (redRow, redCol) \<Rightarrow>
          (case getGeneralPosition b black of
             None \<Rightarrow> False
           | Some (blackRow, blackCol) \<Rightarrow>
               redCol = blackCol \<and> piecesStrictlyBetween b redRow redCol blackRow blackCol = 0))"

text \<open>
  No opposing piece other than a General can reach the target square per
  \<open>canBasicMove\<close>; and every piece of the board is Red or Black.
\<close>

definition noOtherAttacker :: "board \<Rightarrow> jsval \<Rightarrow> int \<Rightarrow> int \<Rightarrow> bool" where
  "noOtherAttacker b sd targetRow targetCol =
     list_all
       (\<lambda>(r, c). case getPiece b r c of
                    None \<Rightarrow> True
                  | Some p \<Rightarrow> pside p = sd \<or> ptype p = JStr ''K'' \<or>
                               canBasicMove b p r c targetRow targetCol \<noteq> Some True)
       (allCoords (rows b) (cols b))"

definition sidesRedBlack :: "board \<Rightarrow> bool" where
  "sidesRedBlack b =
     list_all
       (\<lambda>(r, c). case getPiece b r c of None \<Rightarrow> True | Some p \<Rightarrow> pside p = red \<or> pside p = black)
       (allCoords (rows b) (cols b))"

section \<open>The game engine\<close>

text \<open>
  A history entry holds clones of the board before and after a move and the side that
  moved. The live board is only ever changed through \<open>movePiece\<close> on \<open>this.board\<close>, and
  every snapshot is a clone taken before or after that call, so no snapshot shares a
  cell array with the live board: boards are values here. The logger calls are left out.
\<close>

record entry =
  before :: board
  after :: board
  side :: jsval

record engine =
  board :: board
  sideToMove :: jsval
  selected :: "(int \<times> int) option"
  history :: "entry list"
  redoStack :: "entry list"
  gameOver :: bool
  gameOverReason :: string

text \<open>The texts of \<open>gameOverReason\<close>, as their UTF-8 bytes.\<close>

definition textRed :: string where
  "textRed = [CHR 0xE7, CHR 0xBA, CHR 0xA2, CHR 0xE6, CHR 0x96, CHR 0xB9]"

definition textBlack :: string where
  "textBlack = [CHR 0xE9, CHR 0xBB, CHR 0x91, CHR 0xE6, CHR 0x96, CHR 0xB9]"

definition textMated :: string where
  "textMated = [CHR 0xE8, CHR 0xA2, CHR 0xAB, CHR 0xE5, CHR 0xB0, CHR 0x86, CHR 0xE6, CHR 0xAD,
                CHR 0xBB, CHR 0xEF, CHR 0xBC, CHR 0x8C]"

definition textWins :: string where
  "textWins = [CHR 0xE8, CHR 0x83, CHR 0x9C, CHR 0xEF, CHR 0xBC, CHR 0x81]"

definition textStalemate :: string where
  "textStalemate =
     [CHR 0xE5, CHR 0x8F, CHR 0x8C, CHR 0xE6, CHR 0x96, CHR 0xB9, CHR 0xE5, CHR 0x83, CHR 0xB5,
      CHR 0xE5, CHR 0xB1, CHR 0x80, CHR 0xEF, CHR 0xBC, CHR 0x8C, CHR 0xE6, CHR 0x97, CHR 0xA0,
      CHR 0xE5, CHR 0x90, CHR 0x88, CHR 0xE6, CHR 0xB3, CHR 0x95, CHR 0xE7, CHR 0x9D, CHR 0x80,
      CHR 0xE6, CHR 0xB3, CHR 0x95, CHR 0xE3, CHR 0x80, CHR 0x82]"

definition newGame :: "engine \<Rightarrow> engine" where
  "newGame e =
     e\<lparr>board := setupInitial (board e), sideToMove := red, selected := None, history := [],
       redoStack := [], gameOver := False, gameOverReason := []\<rparr>"

definition newEngine :: engine where
  "newEngine =
     newGame \<lparr>board = newBoard CONFIG_rows CONFIG_cols, sideToMove = red, selected = None,
              history = [], redoStack = [], gameOver = False, gameOverReason = []\<rparr>"

text \<open>
  \<open>selectSquare\<close> returns its boolean and the engine after the call. On a board with the
  constructor's shape nothing in its body throws, so the \<open>catch\<close> branch is never taken;
  \<open>None\<close> is a call that does not return.
\<close>

definition opponent :: "jsval \<Rightarrow> jsval" where
  "opponent sd = (if sd = red then black else red)"

definition commitMove :: "engine \<Rightarrow> int \<Rightarrow> int \<Rightarrow> int \<Rightarrow> int \<Rightarrow> engine" where
  "commitMove e sr sc row col =
     (let snapBefore = clone (board e);
          moved = fst (movePiece (board e) sr sc row col);
          snapAfter = clone moved
      in e\<lparr>board := moved,
            history := history e @ [\<lparr>before = snapBefore, after = snapAfter, side = sideToMove e\<rparr>],
            redoStack := [],
            sideToMove := opponent (sideToMove e),
            selected := None\<rparr>)"

definition selectSquare :: "engine \<Rightarrow> int \<Rightarrow> int \<Rightarrow> (bool \<times> engine) option" where
  "selectSquare e row col =
     (if gameOver e then Some (False, e)
      else
        let clicked = getPiece (board e) row col in
        if (case clicked of Some p \<Rightarrow> pside p = sideToMove e | None \<Rightarrow> False)
        then Some (True, e\<lparr>selected := Some (row, col)\<rparr>)
        else
          (case selected e of
             Some (sr, sc) \<Rightarrow>
               do {
                 legal \<leftarrow> isLegalMove (board e) sr sc row col (sideToMove e);
                 if legal then
                   let e1 = commitMove e sr sc row col;
                       enemy = sideToMove e1
                   in do {
                     inCheck \<leftarrow> isInCheck (board e1) enemy;
                     checkmate \<leftarrow> isCheckmate (board e1) enemy;
                     stalemate \<leftarrow> isStalemate (board e1) enemy;
                     if checkmate then
                       Some (True, e1\<lparr>gameOver := True,
                                      gameOverReason :=
                                        (if enemy = red then textRed else textBlack) @ textMated @
                                        (if enemy = red then textBlack else textRed) @ textWins\<rparr>)
                     else if stalemate then
                       Some (True, e1\<lparr>gameOver := True, gameOverReason := textStalemate\<rparr>)
                     else Some (True, e1)
                   }
                 else Some (False, e)
               }
           | None \<Rightarrow> Some (False, e)))"

definition undo :: "engine \<Rightarrow> bool \<times> engine" where
  "undo e =
     (if history e = [] then (False, e)
      else
        let lst = last (history e) in
        (True,
         e\<lparr>history := butlast (history e),
           redoStack := redoStack e @ [\<lparr>before = before lst, after = after lst, side = side lst\<rparr>],
           board := clone (before lst),
           sideToMove := side lst,
           selected := None,
           gameOver := False,
           gameOverReason := []\<rparr>))"

definition redo :: "engine \<Rightarrow> bool \<times> engine" where
  "redo e =
     (if redoStack e = [] then (False, e)
      else
        let nxt = last (redoStack e) in
        (True,
         e\<lparr>redoStack := butlast (redoStack e),
           board := clone (after nxt),
           sideToMove := (if side nxt = red then black else red),
           selected := None\<rparr>))"

section \<open>Saving and loading\<close>

definition cellJson :: "cell \<Rightarrow> jsval" where
  "cellJson c = (case c of Some p \<Rightarrow> JObj [(''t'', ptype p), (''s'', pside p)] | None \<Rightarrow> JNull)"

definition serializeEngine :: "engine \<Rightarrow> jsval" where
  "serializeEngine e =
     JObj [(''sideToMove'', sideToMove e),
           (''grid'', JArr (map (\<lambda>row. JArr (map cellJson row)) (grid (board e))))]"

text \<open>\<open>cell ? new Piece(cell.t, cell.s) : null\<close>.\<close>

definition pieceOfJson :: "jsval \<Rightarrow> js_error + cell" where
  "pieceOfJson v =
     (if truthy v then
        (case jsProp v ''t'' of
           Inl err \<Rightarrow> Inl err
         | Inr t \<Rightarrow> (case jsProp v ''s'' of Inl err \<Rightarrow> Inl err | Inr s \<Rightarrow> Inr (Some \<lparr>ptype = t, pside = s\<rparr>)))
      else Inr None)"

text \<open>
  The double loop of \<open>applyToEngine\<close> over the cells still to fill:
  \<open>cell = data.grid[r][c]; b.grid[r][c] = ...\<close>. Reading \<open>data.grid[r][c]\<close> throws a
  TypeError when \<open>data.grid[r]\<close> is \<open>undefined\<close> or \<open>null\<close>, and the loop ends there.
\<close>

fun fillCells :: "jsval \<Rightarrow> board \<Rightarrow> (int \<times> int) list \<Rightarrow> js_error + board" where
  "fillCells g b [] = Inr b"
| "fillCells g b ((r, c) # rest) =
     (case jsIndex g (nat r) of
        Inl err \<Rightarrow> Inl err
      | Inr dataRow \<Rightarrow>
          (case jsIndex dataRow (nat c) of
             Inl err \<Rightarrow> Inl err
           | Inr v \<Rightarrow>
               (case pieceOfJson v of
                  Inl err \<Rightarrow> Inl err
                | Inr p \<Rightarrow>
                    fillCells g (b\<lparr>grid := (grid b)[nat r := (grid b ! nat r)[nat c := p]]\<rparr>) rest)))"

text \<open>The \<open>try\<close> block of \<open>applyToEngine\<close> up to the first assignment to the engine.\<close>

definition loadBoard :: "jsval \<Rightarrow> js_error + board" where
  "loadBoard data =
     (if \<not> truthy data then Inl Error
      else
        (case jsProp data ''grid'' of
           Inl err \<Rightarrow> Inl err
         | Inr g \<Rightarrow>
             if \<not> isArray g then Inl Error
             else
               let b = newBoard CONFIG_rows CONFIG_cols
               in fillCells g b (allCoords (rows b) (cols b))))"

definition applyToEngine :: "jsval \<Rightarrow> engine \<Rightarrow> bool \<times> engine" where
  "applyToEngine data e =
     (case loadBoard data of
        Inl err \<Rightarrow> (False, e)
      | Inr b \<Rightarrow>
          (case jsProp data ''sideToMove'' of
             Inl err \<Rightarrow> (False, e\<lparr>board := b\<rparr>)
           | Inr s \<Rightarrow>
               (True,
                e\<lparr>board := b,
                  sideToMove := (if s = black then black else red),
                  selected := None,
                  history := [],
                  redoStack := [],
                  gameOver := False,
                  gameOverReason := []\<rparr>)))"

text \<open>
  One assignment \<open>b.grid[r][c] = G[r][c]\<close>; the loop of \<open>applyToEngine\<close> on a saved
  grid that \<open>serializeEngine\<close> wrote from \<open>G\<close> is a sequence of these.
\<close>

definition writeCell :: "cell list list \<Rightarrow> int \<times> int \<Rightarrow> board \<Rightarrow> board" where
  "writeCell G rc b =
     b\<lparr>grid := (grid b)[nat (fst rc) := (grid b ! nat (fst rc))[nat (snd rc) := G ! nat (fst rc) ! nat (snd rc)]]\<rparr>"

section \<open>A short game\<close>

text \<open>
  The boards of a game that opens with the Red soldier (6, 4) to (5, 4), the Black
  soldier (3, 4) to (4, 4) and the Red cannon (7, 1) to (7, 4), and the history entries
  of these moves.
\<close>

definition board0 :: board where
  "board0 = board newEngine"

definition board1 :: board where
  "board1 = fst (movePiece board0 6 4 5 4)"

definition board2 :: board where
  "board2 = fst (movePiece board1 3 4 4 4)"

definition board3 :: board where
  "board3 = fst (movePiece board2 7 1 7 4)"

definition move1 :: entry where
  "move1 = \<lparr>before = board0, after = board1, side = red\<rparr>"

definition move2 :: entry where
  "move2 = \<lparr>before = board1, after = board2, side = black\<rparr>"

definition move3 :: entry where
  "move3 = \<lparr>before = board2, after = board3, side = red\<rparr>"

text \<open>The engine after the first two moves, and after the three moves and one undo.\<close>

definition afterTwoMoves :: engine where
  "afterTwoMoves =
     \<lparr>board = board2, sideToMove = red, selected = None, history = [move1, move2],
      redoStack = [], gameOver = False, gameOverReason = []\<rparr>"

definition afterThreeMovesUndo :: engine where
  "afterThreeMovesUndo =
     \<lparr>board = board2, sideToMove = red, selected = None, history = [move1, move2],
      redoStack = [move3], gameOver = False, gameOverReason = []\<rparr>"

text \<open>
  One call of \<open>selectSquare\<close>, keeping the engine; the engine after the first move; and
  the engine after the two moves, one \<open>undo\<close> and one \<open>redo\<close>.
\<close>

definition click :: "int \<Rightarrow> int \<Rightarrow> engine \<Rightarrow> engine option" where
  "click row col e = map_option snd (selectSquare e row col)"

definition afterOneMove :: engine where
  "afterOneMove =
     \<lparr>board = board1, sideToMove = black, selected = None, history = [move1],
      redoStack = [], gameOver = False, gameOverReason = []\<rparr>"

definition afterUndoRedo :: engine where
  "afterUndoRedo = snd (redo (snd (undo afterTwoMoves)))"

section \<open>Positions\<close>

text \<open>
  Four small positions. A Red rook between the two Generals on the column (4); a Red
  advisor in front of its General, with a Black rook on the column; the two Generals
  facing each other on an open column, with a Black rook in the corner; and a Red
  General standing next to the Black one inside the Black palace.
\<close>

definition pinnedRookBoard :: board where
  "pinnedRookBoard =
     setPiece (setPiece (setPiece (newBoard CONFIG_rows CONFIG_cols)
       9 4 (Some \<lparr>ptype = JStr ''K'', pside = red\<rparr>))
       0 4 (Some \<lparr>ptype = JStr ''K'', pside = black\<rparr>))
       5 4 (Some \<lparr>ptype = JStr ''R'', pside = red\<rparr>)"

definition shieldedBoard :: board where
  "shieldedBoard =
     setPiece (setPiece (setPiece (setPiece (newBoard CONFIG_rows CONFIG_cols)
       9 4 (Some \<lparr>ptype = JStr ''K'', pside = red\<rparr>))
       8 4 (Some \<lparr>ptype = JStr ''A'', pside = red\<rparr>))
       0 3 (Some \<lparr>ptype = JStr ''K'', pside = black\<rparr>))
       1 4 (Some \<lparr>ptype = JStr ''R'', pside = black\<rparr>)"

definition openFileBoard :: board where
  "openFileBoard =
     setPiece (setPiece (setPiece (newBoard CONFIG_rows CONFIG_cols)
       9 4 (Some \<lparr>ptype = JStr ''K'', pside = red\<rparr>))
       0 4 (Some \<lparr>ptype = JStr ''K'', pside = black\<rparr>))
       0 0 (Some \<lparr>ptype = JStr ''R'', pside = black\<rparr>)"

definition adjacentGeneralsBoard :: board where
  "adjacentGeneralsBoard =
     setPiece (setPiece (newBoard CONFIG_rows CONFIG_cols)
       0 4 (Some \<lparr>ptype = JStr ''K'', pside = black\<rparr>))
       1 4 (Some \<lparr>ptype = JStr ''K'', pside = red\<rparr>)"

section \<open>The board accessors\<close>

lemma clone_ident: "clone b = b"
proof -
  have "clonePiece = id"
    by (rule ext) (simp add: clonePiece_def split: option.splits)
  then show ?thesis by (simp add: clone_def)
qed

lemma wfBoard_newBoard: "0 \<le> nrows \<Longrightarrow> 0 \<le> ncols \<Longrightarrow> wfBoard (newBoard nrows ncols)"
  by (simp add: wfBoard_def newBoard_def list_all_iff)

lemma wfBoard_setPiece: "wfBoard b \<Longrightarrow> wfBoard (setPiece b row col p)"
  by (auto simp: wfBoard_def setPiece_def list_all_iff inBounds_def dest!: set_update_subset_insert [THEN subsetD])

lemma wfBoard_movePiece: "wfBoard b \<Longrightarrow> wfBoard (fst (movePiece b fromRow fromCol toRow toCol))"
  by (simp add: movePiece_def Let_def wfBoard_setPiece)

lemma getPiece_setPiece:
  assumes "wfBoard b"
  shows "getPiece (setPiece b row col p) r c =
           (if inBounds row col (rows b) (cols b) \<and> r = row \<and> c = col then p else getPiece b r c)"
proof (cases "inBounds row col (rows b) (cols b)")
  case False
  then show ?thesis by (simp add: setPiece_def)
next
  case inb: True
  show ?thesis
  proof (cases "inBounds r c (rows b) (cols b)")
    case False
    then show ?thesis using inb by (auto simp: getPiece_def setPiece_def)
  next
    case True
    have len: "length (grid b) = nat (rows b)"
      and row_len: "\<And>i. i < nat (rows b) \<Longrightarrow> length (grid b ! i) = nat (cols b)"
      using assms by (auto simp: wfBoard_def list_all_length)
    have i1: "nat row < nat (rows b)" "nat col < nat (cols b)"
      and i2: "nat r < nat (rows b)" "nat c < nat (cols b)"
      using inb True by (auto simp: inBounds_def)
    have eq: "(nat row = nat r) = (r = row)" "(nat col = nat c) = (c = col)"
      using inb True by (auto simp: inBounds_def)
    show ?thesis
      using inb True i1 i2 eq len row_len
      by (simp add: getPiece_def setPiece_def nth_list_update)
  qed
qed

text \<open>
  C8. Out-of-bounds coordinates are rejected silently: \<open>getPiece\<close> returns empty,
  \<open>setPiece\<close> leaves the board as it is, and \<open>movePiece\<close> with an origin or a
  destination out of bounds leaves the board as it is and returns \<open>captured\<close> empty.
  No access to the grid comes before the bounds test, so nothing is raised.
\<close>

theorem out_of_bounds_rejected:
  "(\<not> inBounds row col (rows b) (cols b) \<longrightarrow>
      getPiece b row col = None \<and> setPiece b row col p = b) \<and>
   (\<not> inBounds fromRow fromCol (rows b) (cols b) \<or> \<not> inBounds toRow toCol (rows b) (cols b) \<longrightarrow>
      movePiece b fromRow fromCol toRow toCol = (b, None))"
  by (simp add: getPiece_def setPiece_def movePiece_def)

theorem out_of_bounds_rejected_witness:
  "\<not> inBounds (-1) 4 (rows (newBoard 10 9)) (cols (newBoard 10 9)) \<and>
   getPiece (newBoard 10 9) (-1) 4 = None \<and>
   setPiece (newBoard 10 9) (-1) 4 (Some \<lparr>ptype = JStr ''R'', pside = red\<rparr>) = newBoard 10 9 \<and>
   \<not> inBounds 3 9 (rows (newBoard 10 9)) (cols (newBoard 10 9)) \<and>
   movePiece (newBoard 10 9) 0 0 3 9 = (newBoard 10 9, None)"
  using out_of_bounds_rejected [of "-1" 4 "newBoard 10 9" "Some \<lparr>ptype = JStr ''R'', pside = red\<rparr>" 0 0 3 9]
  by (simp add: inBounds_def newBoard_def)

text \<open>
  C10. Moving a piece onto its own square removes it: for an in-bounds square holding a
  piece, \<open>movePiece(r, c, r, c)\<close> returns that piece as \<open>captured\<close> and leaves the square
  empty, every other square as it was.
\<close>

theorem movePiece_same_square_removes:
  assumes "wfBoard b" and "inBounds r c (rows b) (cols b)" and "getPiece b r c = Some p"
  shows "snd (movePiece b r c r c) = Some p \<and>
         getPiece (fst (movePiece b r c r c)) r c = None \<and>
         (\<forall>r' c'. (r', c') \<noteq> (r, c) \<longrightarrow>
            getPiece (fst (movePiece b r c r c)) r' c' = getPiece b r' c') \<and>
         fst (movePiece b r c r c) \<noteq> b"
proof -
  let ?b1 = "setPiece b r c (Some p)"
  let ?b2 = "setPiece ?b1 r c None"
  have mv: "movePiece b r c r c = (?b2, Some p)"
    using assms by (simp add: movePiece_def Let_def)
  have wf1: "wfBoard ?b1" using assms(1) by (rule wfBoard_setPiece)
  have dims: "rows ?b1 = rows b" "cols ?b1 = cols b"
    by (simp_all add: setPiece_def)
  have cells: "getPiece ?b2 r' c' = (if r' = r \<and> c' = c then None else getPiece b r' c')" for r' c'
    using assms(2) by (simp add: getPiece_setPiece [OF wf1] getPiece_setPiece [OF assms(1)] dims)
  have "getPiece ?b2 r c \<noteq> getPiece b r c"
    using cells [of r c] assms(3) by simp
  then have "?b2 \<noteq> b" by auto
  with mv cells show ?thesis by simp
qed

theorem movePiece_same_square_removes_witness:
  "wfBoard (board newEngine) \<and>
   inBounds 9 0 (rows (board newEngine)) (cols (board newEngine)) \<and>
   getPiece (board newEngine) 9 0 = Some \<lparr>ptype = JStr ''R'', pside = red\<rparr> \<and>
   snd (movePiece (board newEngine) 9 0 9 0) = Some \<lparr>ptype = JStr ''R'', pside = red\<rparr> \<and>
   getPiece (fst (movePiece (board newEngine) 9 0 9 0)) 9 0 = None \<and>
   fst (movePiece (board newEngine) 9 0 9 0) \<noteq> board newEngine"
proof -
  have h1: "wfBoard (board newEngine)" by code_simp
  have h2: "inBounds 9 0 (rows (board newEngine)) (cols (board newEngine))" by code_simp
  have h3: "getPiece (board newEngine) 9 0 = Some \<lparr>ptype = JStr ''R'', pside = red\<rparr>" by code_simp
  show ?thesis
    using movePiece_same_square_removes [OF h1 h2 h3] h1 h2 h3 by simp
qed

section \<open>Selecting a square\<close>

text \<open>
  C2, as the code has it. When the game is not over, a click on a piece of the side to
  move selects that piece, whether or not another piece was selected before: the call
  returns true, the selection becomes the clicked square, and nothing else changes.
\<close>

theorem selectSquare_own_piece_reselects:
  assumes "\<not> gameOver e" and "getPiece (board e) row col = Some p" and "pside p = sideToMove e"
  shows "selectSquare e row col = Some (True, e\<lparr>selected := Some (row, col)\<rparr>)"
  using assms by (simp add: selectSquare_def)

theorem selectSquare_own_piece_reselects_witness:
  "\<not> gameOver (newEngine\<lparr>selected := Some (9, 0)\<rparr>) \<and>
   getPiece (board (newEngine\<lparr>selected := Some (9, 0)\<rparr>)) 9 1 = Some \<lparr>ptype = JStr ''H'', pside = red\<rparr> \<and>
   pside \<lparr>ptype = JStr ''H'', pside = red\<rparr> = sideToMove (newEngine\<lparr>selected := Some (9, 0)\<rparr>) \<and>
   selectSquare (newEngine\<lparr>selected := Some (9, 0)\<rparr>) 9 1 =
     Some (True, newEngine\<lparr>selected := Some (9, 0)\<rparr>\<lparr>selected := Some (9, 1)\<rparr>)"
proof -
  let ?e = "newEngine\<lparr>selected := Some (9, 0)\<rparr>"
  have h1: "\<not> gameOver ?e" by code_simp
  have h2: "getPiece (board ?e) 9 1 = Some \<lparr>ptype = JStr ''H'', pside = red\<rparr>" by code_simp
  have h3: "pside \<lparr>ptype = JStr ''H'', pside = red\<rparr> = sideToMove ?e" by code_simp
  show ?thesis
    using selectSquare_own_piece_reselects [OF h1 h2 h3] h1 h2 h3 by simp
qed

text \<open>
  The claim as the specification words it fails: in a new game with the Red rook on
  (9, 0) selected, a click on the Red horse on (9, 1) returns true and the selection
  moves to (9, 1).
\<close>

theorem selectSquare_own_piece_counterexample:
  "selectSquare newEngine 9 0 = Some (True, newEngine\<lparr>selected := Some (9, 0)\<rparr>) \<and>
   sideToMove (newEngine\<lparr>selected := Some (9, 0)\<rparr>) = red \<and>
   selected (newEngine\<lparr>selected := Some (9, 0)\<rparr>) = Some (9, 0) \<and>
   getPiece (board newEngine) 9 0 = Some \<lparr>ptype = JStr ''R'', pside = red\<rparr> \<and>
   getPiece (board newEngine) 9 1 = Some \<lparr>ptype = JStr ''H'', pside = red\<rparr> \<and>
   map_option fst (selectSquare (newEngine\<lparr>selected := Some (9, 0)\<rparr>) 9 1) = Some True \<and>
   map_option (selected \<circ> snd) (selectSquare (newEngine\<lparr>selected := Some (9, 0)\<rparr>) 9 1) = Some (Some (9, 1))"
proof -
  have g: "\<not> gameOver newEngine" "sideToMove newEngine = red"
    by (simp_all add: newEngine_def newGame_def)
  have p0: "getPiece (board newEngine) 9 0 = Some \<lparr>ptype = JStr ''R'', pside = red\<rparr>" by code_simp
  have p1: "getPiece (board newEngine) 9 1 = Some \<lparr>ptype = JStr ''H'', pside = red\<rparr>" by code_simp
  show ?thesis
    using g p0 p1 by (simp add: selectSquare_def)
qed

section \<open>Undo and redo\<close>

text \<open>
  C9. A successful \<open>redo\<close> pops the redo stack and leaves the history as it is: the
  redone entry is not pushed back. So after \<open>undo\<close> then \<open>redo\<close> the history is the
  history before the undo without its last entry, and one more \<open>undo\<close> goes back to
  the board before the move that preceded the redone one.
\<close>

theorem redo_leaves_history:
  "(redoStack e \<noteq> [] \<longrightarrow>
      fst (redo e) \<and> history (snd (redo e)) = history e \<and>
      redoStack (snd (redo e)) = butlast (redoStack e)) \<and>
   (history e \<noteq> [] \<longrightarrow>
      fst (undo e) \<and> fst (redo (snd (undo e))) \<and>
      history (snd (redo (snd (undo e)))) = butlast (history e)) \<and>
   (history e \<noteq> [] \<and> butlast (history e) \<noteq> [] \<longrightarrow>
      fst (undo (snd (redo (snd (undo e))))) \<and>
      board (snd (undo (snd (redo (snd (undo e)))))) = before (last (butlast (history e))) \<and>
      sideToMove (snd (undo (snd (redo (snd (undo e)))))) = side (last (butlast (history e))) \<and>
      history (snd (undo (snd (redo (snd (undo e)))))) = butlast (butlast (history e)))"
  by (simp add: undo_def redo_def Let_def clone_ident)

theorem redo_leaves_history_witness:
  "redoStack afterThreeMovesUndo \<noteq> [] \<and>
   history (snd (redo afterThreeMovesUndo)) = [move1, move2] \<and>
   history afterThreeMovesUndo \<noteq> [] \<and>
   history (snd (redo (snd (undo afterThreeMovesUndo)))) = [move1] \<and>
   butlast (history afterThreeMovesUndo) \<noteq> [] \<and>
   board (snd (undo (snd (redo (snd (undo afterThreeMovesUndo)))))) = board0 \<and>
   history (snd (undo (snd (redo (snd (undo afterThreeMovesUndo)))))) = []"
proof -
  have h: "redoStack afterThreeMovesUndo \<noteq> []" "history afterThreeMovesUndo = [move1, move2]"
    by (simp_all add: afterThreeMovesUndo_def)
  have b: "before move1 = board0" by (simp add: move1_def)
  show ?thesis
    using redo_leaves_history [of afterThreeMovesUndo] h b by simp
qed

section \<open>Saving and loading a game\<close>

lemma pieceOfJson_cellJson: "pieceOfJson (cellJson c) = Inr c"
  by (cases c) (simp_all add: pieceOfJson_def cellJson_def)

lemma allCoords_mem: "(r, c) \<in> set (allCoords nrows ncols) \<longleftrightarrow> (0 \<le> r \<and> r < nrows \<and> 0 \<le> c \<and> c < ncols)"
  by (force simp: allCoords_def)

lemma fillCells_serialized:
  assumes "\<forall>(r, c) \<in> set cs. 0 \<le> r \<and> nat r < length G \<and> 0 \<le> c \<and> nat c < length (G ! nat r)"
  shows "fillCells (JArr (map (\<lambda>row. JArr (map cellJson row)) G)) b cs = Inr (fold (writeCell G) cs b)"
  using assms
proof (induction cs arbitrary: b)
  case Nil
  then show ?case by simp
next
  case (Cons rc cs)
  obtain r c where rc: "rc = (r, c)" by (cases rc)
  from Cons.prems rc have inr: "nat r < length G" "nat c < length (G ! nat r)" by auto
  from Cons.prems have rest: "\<forall>(r, c) \<in> set cs. 0 \<le> r \<and> nat r < length G \<and> 0 \<le> c \<and> nat c < length (G ! nat r)"
    by simp
  show ?case
    using inr Cons.IH [OF rest] by (simp add: rc pieceOfJson_cellJson writeCell_def)
qed

lemma fold_writeCell:
  assumes "\<forall>(r, c) \<in> set cs. 0 \<le> r \<and> 0 \<le> c"
  shows "rows (fold (writeCell G) cs b) = rows b \<and> cols (fold (writeCell G) cs b) = cols b \<and>
         length (grid (fold (writeCell G) cs b)) = length (grid b) \<and>
         (\<forall>i < length (grid b). length (grid (fold (writeCell G) cs b) ! i) = length (grid b ! i) \<and>
            (\<forall>j < length (grid b ! i). grid (fold (writeCell G) cs b) ! i ! j =
               (if (int i, int j) \<in> set cs then G ! i ! j else grid b ! i ! j)))"
  using assms
proof (induction cs arbitrary: b)
  case Nil
  then show ?case by simp
next
  case (Cons rc cs)
  obtain r c where rc: "rc = (r, c)" by (cases rc)
  let ?b1 = "writeCell G rc b"
  from Cons.prems rc have nn: "0 \<le> r" "0 \<le> c" by auto
  from Cons.prems have rest: "\<forall>(r, c) \<in> set cs. 0 \<le> r \<and> 0 \<le> c" by simp
  note IH = Cons.IH [OF rest, of ?b1]
  have dims1: "rows ?b1 = rows b" "cols ?b1 = cols b" "length (grid ?b1) = length (grid b)"
    by (simp_all add: writeCell_def)
  have row1: "length (grid ?b1 ! i) = length (grid b ! i)" if "i < length (grid b)" for i
    using that by (cases "i = nat r") (simp_all add: writeCell_def rc)
  have cell1: "grid ?b1 ! i ! j = (if int i = r \<and> int j = c then G ! i ! j else grid b ! i ! j)"
    if "i < length (grid b)" "j < length (grid b ! i)" for i j
  proof (cases "i = nat r")
    case True
    have "(j = nat c) = (int j = c)" using nn by auto
    then show ?thesis
      using that nn True by (auto simp: writeCell_def rc nth_list_update)
  next
    case False
    then have "int i \<noteq> r" by auto
    then show ?thesis
      using that False by (simp add: writeCell_def rc)
  qed
  show ?case
    using IH dims1 row1 cell1 by (auto simp: rc)
qed


lemma loadBoard_serializeEngine:
  assumes "rows (board e) = CONFIG_rows" and "cols (board e) = CONFIG_cols" and "wfBoard (board e)"
  shows "loadBoard (serializeEngine e) = Inr (board e)"
proof -
  let ?G = "grid (board e)"
  let ?b0 = "newBoard CONFIG_rows CONFIG_cols"
  let ?cs = "allCoords CONFIG_rows CONFIG_cols"
  let ?W = "fold (writeCell ?G) ?cs ?b0"
  have lenG: "length ?G = nat CONFIG_rows"
    and rowG: "\<And>i. i < nat CONFIG_rows \<Longrightarrow> length (?G ! i) = nat CONFIG_cols"
    using assms by (auto simp: wfBoard_def list_all_length)
  have inr: "\<forall>(r, c) \<in> set ?cs. 0 \<le> r \<and> nat r < length ?G \<and> 0 \<le> c \<and> nat c < length (?G ! nat r)"
    using lenG rowG by (auto simp: allCoords_mem)
  have nonneg: "\<forall>(r, c) \<in> set ?cs. 0 \<le> r \<and> 0 \<le> c"
    by (auto simp: allCoords_mem)
  have filled: "fillCells (JArr (map (\<lambda>row. JArr (map cellJson row)) ?G)) ?b0 ?cs = Inr ?W"
    using inr by (rule fillCells_serialized)
  have len0: "length (grid ?b0) = nat CONFIG_rows"
    and row0: "\<And>i. i < nat CONFIG_rows \<Longrightarrow> length (grid ?b0 ! i) = nat CONFIG_cols"
    by (simp_all add: newBoard_def)
  note W = fold_writeCell [OF nonneg, of ?G ?b0]
  have "grid ?W = ?G"
  proof (rule nth_equalityI)
    show "length (grid ?W) = length ?G" using W len0 lenG by simp
  next
    fix i assume "i < length (grid ?W)"
    then have i: "i < nat CONFIG_rows" using W len0 by simp
    show "grid ?W ! i = ?G ! i"
    proof (rule nth_equalityI)
      show "length (grid ?W ! i) = length (?G ! i)"
        using W i len0 row0 rowG by simp
    next
      fix j assume "j < length (grid ?W ! i)"
      then have j: "j < nat CONFIG_cols" using W i len0 row0 by simp
      have "(int i, int j) \<in> set ?cs" using i j by (auto simp: allCoords_mem)
      then show "grid ?W ! i ! j = ?G ! i ! j"
        using W i j len0 row0 by simp
    qed
  qed
  moreover have "rows ?W = CONFIG_rows" "cols ?W = CONFIG_cols"
    using W by (simp_all add: newBoard_def)
  ultimately have "?W = board e"
    using assms(1,2) by simp
  then show ?thesis
    using filled by (simp add: loadBoard_def serializeEngine_def Let_def newBoard_def)
qed

lemma fillCells_missing_row:
  assumes "(r, c) \<in> set cs" and "jsIndex g (nat r) = Inr JUndefined \<or> jsIndex g (nat r) = Inr JNull"
  shows "\<exists>err. fillCells g b cs = Inl err"
  using assms
proof (induction cs arbitrary: b)
  case Nil
  then show ?case by simp
next
  case (Cons rc cs)
  obtain r' c' where rc: "rc = (r', c')" by (cases rc)
  show ?case
  proof (cases "rc = (r, c)")
    case True
    then show ?thesis using Cons.prems(2) by auto
  next
    case False
    then have "(r, c) \<in> set cs" using Cons.prems(1) by simp
    from Cons.IH [OF this Cons.prems(2)] show ?thesis
      by (auto simp: rc split: sum.splits)
  qed
qed


lemma jsProp_truthy: "truthy v \<Longrightarrow> \<exists>x. jsProp v name = Inr x"
  by (cases v) (simp_all split: option.splits)

lemma applyToEngine_false_unchanged:
  "\<not> fst (applyToEngine data e) \<Longrightarrow> snd (applyToEngine data e) = e"
proof -
  assume f: "\<not> fst (applyToEngine data e)"
  show ?thesis
  proof (cases "loadBoard data")
    case (Inl err)
    then show ?thesis by (simp add: applyToEngine_def)
  next
    case (Inr b)
    then have "truthy data"
      by (auto simp: loadBoard_def split: if_splits)
    then obtain s where "jsProp data ''sideToMove'' = Inr s"
      using jsProp_truthy by blast
    with Inr f show ?thesis by (simp add: applyToEngine_def)
  qed
qed

text \<open>
  C5. For an engine whose board has the default dimensions and whose side to move is
  \<open>'red'\<close> or \<open>'black'\<close>, loading what \<open>serializeEngine\<close> saved of it returns true
  and reproduces its board (every cell, with its type and side) and its side to move in
  the engine that loads, whatever that engine held before, with the selection, the
  history, the redo stack and the game-over flag and reason reset. The engine that loads
  may be the one that was saved, as in \<open>applyToEngine(serializeEngine(engine), engine)\<close>.
\<close>

theorem serialize_apply_roundtrip:
  assumes "rows (board e) = CONFIG_rows" and "cols (board e) = CONFIG_cols"
    and "wfBoard (board e)" and "sideToMove e = red \<or> sideToMove e = black"
  shows "fst (applyToEngine (serializeEngine e) e') \<and>
         board (snd (applyToEngine (serializeEngine e) e')) = board e \<and>
         sideToMove (snd (applyToEngine (serializeEngine e) e')) = sideToMove e \<and>
         selected (snd (applyToEngine (serializeEngine e) e')) = None \<and>
         history (snd (applyToEngine (serializeEngine e) e')) = [] \<and>
         redoStack (snd (applyToEngine (serializeEngine e) e')) = [] \<and>
         \<not> gameOver (snd (applyToEngine (serializeEngine e) e')) \<and>
         gameOverReason (snd (applyToEngine (serializeEngine e) e')) = []"
proof -
  have lb: "loadBoard (serializeEngine e) = Inr (board e)"
    using assms(1-3) by (rule loadBoard_serializeEngine)
  have sd: "jsProp (serializeEngine e) ''sideToMove'' = Inr (sideToMove e)"
    by (simp add: serializeEngine_def)
  show ?thesis
    using assms(4) by (auto simp: applyToEngine_def lb sd)
qed

text \<open>
  The game saved after the first move (Black to move) is loaded into the engine that
  stands after three moves and one undo: the board and the side to move become those of
  the saved game, which differ from what the loading engine held, and its history and
  redo stack are emptied.
\<close>

theorem serialize_apply_roundtrip_witness:
  "rows (board afterOneMove) = CONFIG_rows \<and> cols (board afterOneMove) = CONFIG_cols \<and>
   wfBoard (board afterOneMove) \<and> sideToMove afterOneMove = black \<and>
   board afterThreeMovesUndo = board2 \<and> board2 \<noteq> board1 \<and>
   sideToMove afterThreeMovesUndo = red \<and>
   history afterThreeMovesUndo = [move1, move2] \<and> redoStack afterThreeMovesUndo = [move3] \<and>
   fst (applyToEngine (serializeEngine afterOneMove) afterThreeMovesUndo) \<and>
   board (snd (applyToEngine (serializeEngine afterOneMove) afterThreeMovesUndo)) = board1 \<and>
   sideToMove (snd (applyToEngine (serializeEngine afterOneMove) afterThreeMovesUndo)) = black \<and>
   history (snd (applyToEngine (serializeEngine afterOneMove) afterThreeMovesUndo)) = [] \<and>
   redoStack (snd (applyToEngine (serializeEngine afterOneMove) afterThreeMovesUndo)) = []"
proof -
  have b: "board afterOneMove = board1" and s: "sideToMove afterOneMove = black"
    by (simp_all add: afterOneMove_def)
  have d1: "rows board1 = CONFIG_rows" by code_simp
  have d2: "cols board1 = CONFIG_cols" by code_simp
  have w: "wfBoard board1" by code_simp
  have ne: "board2 \<noteq> board1" by code_simp
  have h1: "rows (board afterOneMove) = CONFIG_rows" using d1 b by simp
  have h2: "cols (board afterOneMove) = CONFIG_cols" using d2 b by simp
  have h3: "wfBoard (board afterOneMove)" using w b by simp
  have h4: "sideToMove afterOneMove = red \<or> sideToMove afterOneMove = black" using s by simp
  have t: "board afterThreeMovesUndo = board2" "sideToMove afterThreeMovesUndo = red"
    "history afterThreeMovesUndo = [move1, move2]" "redoStack afterThreeMovesUndo = [move3]"
    by (simp_all add: afterThreeMovesUndo_def)
  show ?thesis
    using serialize_apply_roundtrip [OF h1 h2 h3 h4, of afterThreeMovesUndo] h1 h2 h3 b s t ne
    by simp
qed

text \<open>
  C6, as the code has it. \<open>applyToEngine\<close> returns false and leaves every field of the
  engine as it was when the saved value is \<open>null\<close> (or falsy in another way), when its
  \<open>grid\<close> is missing or not an array, and when its \<open>grid\<close> has fewer rows than the board;
  and whenever it returns false the engine is untouched.
\<close>

theorem applyToEngine_rejects_malformed:
  "(\<not> truthy data \<or>
    (\<exists>g. jsProp data ''grid'' = Inr g \<and> \<not> isArray g) \<or>
    (\<exists>rs. jsProp data ''grid'' = Inr (JArr rs) \<and> length rs < nat CONFIG_rows)
      \<longrightarrow> applyToEngine data e = (False, e)) \<and>
   (\<not> fst (applyToEngine data e) \<longrightarrow> snd (applyToEngine data e) = e)"
proof -
  have short: "\<exists>err. loadBoard data = Inl err"
    if t: "truthy data" and g: "jsProp data ''grid'' = Inr (JArr rs)" and len: "length rs < nat CONFIG_rows" for rs
  proof -
    let ?b = "newBoard CONFIG_rows CONFIG_cols"
    have "(int (length rs), 0) \<in> set (allCoords (rows ?b) (cols ?b))"
      using len by (auto simp: allCoords_mem newBoard_def CONFIG_cols_def)
    moreover have "jsIndex (JArr rs) (nat (int (length rs))) = Inr JUndefined" by simp
    ultimately have "\<exists>err. fillCells (JArr rs) ?b (allCoords (rows ?b) (cols ?b)) = Inl err"
      by (blast intro: fillCells_missing_row)
    then show ?thesis using t g by (simp add: loadBoard_def Let_def)
  qed
  have "\<exists>err. loadBoard data = Inl err"
    if "\<not> truthy data \<or>
        (\<exists>g. jsProp data ''grid'' = Inr g \<and> \<not> isArray g) \<or>
        (\<exists>rs. jsProp data ''grid'' = Inr (JArr rs) \<and> length rs < nat CONFIG_rows)"
    using that short by (cases "truthy data") (auto simp: loadBoard_def)
  then show ?thesis
    using applyToEngine_false_unchanged [of data e] by (auto simp: applyToEngine_def)
qed

theorem applyToEngine_rejects_malformed_witness:
  "applyToEngine JNull newEngine = (False, newEngine) \<and>
   applyToEngine (JObj [(''sideToMove'', red), (''grid'', JStr ''none'')]) newEngine = (False, newEngine) \<and>
   applyToEngine (JObj [(''sideToMove'', red), (''grid'', JArr (replicate 9 (JArr (replicate 9 JNull))))])
     newEngine = (False, newEngine)"
proof -
  have h1: "\<not> truthy JNull" by simp
  have h2: "\<exists>g. jsProp (JObj [(''sideToMove'', red), (''grid'', JStr ''none'')]) ''grid'' = Inr g \<and> \<not> isArray g"
    by simp
  have h3: "\<exists>rs. jsProp (JObj [(''sideToMove'', red), (''grid'', JArr (replicate 9 (JArr (replicate 9 JNull))))]) ''grid''
                  = Inr (JArr rs) \<and> length rs < nat CONFIG_rows"
    by (simp add: CONFIG_rows_def)
  show ?thesis
    using applyToEngine_rejects_malformed [of JNull newEngine]
      applyToEngine_rejects_malformed [of "JObj [(''sideToMove'', red), (''grid'', JStr ''none'')]" newEngine]
      applyToEngine_rejects_malformed
        [of "JObj [(''sideToMove'', red), (''grid'', JArr (replicate 9 (JArr (replicate 9 JNull))))]" newEngine]
      h1 h2 h3
    by blast
qed

text \<open>
  Rows of the wrong length are not rejected: a saved grid of ten rows of eight cells
  loads, and replaces the board and the side to move of a new game.
\<close>

theorem applyToEngine_short_rows_counterexample:
  "fst (applyToEngine (JObj [(''sideToMove'', black), (''grid'', JArr (replicate 10 (JArr (replicate 8 JNull))))])
         newEngine) \<and>
   board (snd (applyToEngine (JObj [(''sideToMove'', black), (''grid'', JArr (replicate 10 (JArr (replicate 8 JNull))))])
         newEngine)) = newBoard 10 9 \<and>
   board (snd (applyToEngine (JObj [(''sideToMove'', black), (''grid'', JArr (replicate 10 (JArr (replicate 8 JNull))))])
         newEngine)) \<noteq> board newEngine \<and>
   sideToMove (snd (applyToEngine (JObj [(''sideToMove'', black), (''grid'', JArr (replicate 10 (JArr (replicate 8 JNull))))])
         newEngine)) \<noteq> sideToMove newEngine"
  by code_simp

section \<open>Counting the pieces between two squares\<close>

text \<open>
  The loop of \<open>countPiecesBetween\<close> ends when it walks towards its stop index, and then
  it has counted the occupied squares it passed.
\<close>

lemma countLoop_up:
  "i \<le> stop \<Longrightarrow> countLoop at i 1 stop cnt = Some (cnt + int (length (filter (\<lambda>j. at j \<noteq> None) [i..stop - 1])))"
proof (induction "nat (stop - i)" arbitrary: i cnt)
  case 0
  then have "i = stop" by simp
  then show ?case by (simp add: countLoop.simps)
next
  case (Suc n)
  then have lt: "i < stop" and n: "n = nat (stop - (i + 1))" and le: "i + 1 \<le> stop" by auto
  have up: "[i..stop - 1] = i # [i + 1..stop - 1]"
    using lt by (simp add: upto_rec1)
  show ?case
    using lt Suc.hyps(1) [OF n le] by (subst countLoop.simps) (simp add: up)
qed

lemma countLoop_down:
  "stop \<le> i \<Longrightarrow> countLoop at i (-1) stop cnt = Some (cnt + int (length (filter (\<lambda>j. at j \<noteq> None) [stop + 1..i])))"
proof (induction "nat (i - stop)" arbitrary: i cnt)
  case 0
  then have "i = stop" by simp
  then show ?case by (simp add: countLoop.simps)
next
  case (Suc n)
  then have lt: "stop < i" and n: "n = nat (i - 1 - stop)" and le: "stop \<le> i - 1" by auto
  have up: "[stop + 1..i] = [stop + 1..i - 1] @ [i]"
    using lt by (simp add: upto_rec2)
  show ?case
    using lt Suc.hyps(1) [OF n le] by (subst countLoop.simps) (simp add: up)
qed


lemma countPiecesBetween_line:
  assumes "(fromRow, fromCol) \<noteq> (toRow, toCol)" and "fromRow = toRow \<or> fromCol = toCol"
  shows "countPiecesBetween b fromRow fromCol toRow toCol =
           Some (int (piecesStrictlyBetween b fromRow fromCol toRow toCol))"
proof (cases "fromRow = toRow")
  case True
  with assms(1) have ne: "fromCol \<noteq> toCol" by simp
  show ?thesis
  proof (cases "fromCol < toCol")
    case lt: True
    then show ?thesis
      using True countLoop_up [of "fromCol + 1" toCol "\<lambda>c. getPiece b fromRow c" 0]
      by (simp add: countPiecesBetween_def piecesStrictlyBetween_def min_def max_def)
  next
    case False
    with ne have gt: "toCol < fromCol" by simp
    then show ?thesis
      using True countLoop_down [of toCol "fromCol - 1" "\<lambda>c. getPiece b fromRow c" 0]
      by (simp add: countPiecesBetween_def piecesStrictlyBetween_def min_def max_def)
  qed
next
  case False
  with assms have col: "fromCol = toCol" and ne: "fromRow \<noteq> toRow" by auto
  show ?thesis
  proof (cases "fromRow < toRow")
    case lt: True
    then show ?thesis
      using False col countLoop_up [of "fromRow + 1" toRow "\<lambda>r. getPiece b r fromCol" 0]
      by (simp add: countPiecesBetween_def piecesStrictlyBetween_def min_def max_def)
  next
    case nlt: False
    with ne have gt: "toRow < fromRow" by simp
    then show ?thesis
      using False col countLoop_down [of toRow "fromRow - 1" "\<lambda>r. getPiece b r fromCol" 0]
      by (simp add: countPiecesBetween_def piecesStrictlyBetween_def min_def max_def)
  qed
qed

lemma countPiecesBetween_total:
  assumes "(fromRow, fromCol) \<noteq> (toRow, toCol)"
  shows "\<exists>n. countPiecesBetween b fromRow fromCol toRow toCol = Some n"
proof (cases "fromRow = toRow \<or> fromCol = toCol")
  case True
  with assms show ?thesis by (simp add: countPiecesBetween_line)
next
  case False
  then show ?thesis by (simp add: countPiecesBetween_def)
qed

lemma if_returns: "a \<noteq> None \<Longrightarrow> b \<noteq> None \<Longrightarrow> (if c then a else b) \<noteq> None"
  by simp

text \<open>
  \<open>canBasicMove\<close> always returns: it calls \<open>countPiecesBetween\<close> only after it has
  excluded a move from a square to itself.
\<close>

lemma canBasicMove_total: "canBasicMove b piece fromRow fromCol toRow toCol \<noteq> None"
proof (cases "fromRow = toRow \<and> fromCol = toCol")
  case True
  then show ?thesis by (simp add: canBasicMove_def)
next
  case False
  then have "(fromRow, fromCol) \<noteq> (toRow, toCol)" by simp
  then obtain n where cnt: "countPiecesBetween b fromRow fromCol toRow toCol = Some n"
    using countPiecesBetween_total by blast
  show ?thesis
    unfolding canBasicMove_def Let_def pathClear_def cnt
    by (intro if_returns) simp_all
qed

lemma canBasicMove_cannon:
  assumes "ptype piece = JStr ''C''"
    and "(fromRow, fromCol) \<noteq> (toRow, toCol)" and "fromRow = toRow \<or> fromCol = toCol"
    and "inBounds toRow toCol CONFIG_rows CONFIG_cols"
    and "\<not> sameSide (getPiece b toRow toCol) piece"
  shows "canBasicMove b piece fromRow fromCol toRow toCol =
           Some (if getPiece b toRow toCol = None
                 then piecesStrictlyBetween b fromRow fromCol toRow toCol = 0
                 else piecesStrictlyBetween b fromRow fromCol toRow toCol = 1)"
proof -
  have ne: "\<not> (fromRow = toRow \<and> fromCol = toCol)" using assms(2) by simp
  have cnt: "countPiecesBetween b fromRow fromCol toRow toCol =
               Some (int (piecesStrictlyBetween b fromRow fromCol toRow toCol))"
    using assms(2,3) by (rule countPiecesBetween_line)
  show ?thesis
    unfolding canBasicMove_def Let_def
    by (simp only: ne assms(1,3,4,5) cnt if_False if_True not_True_eq_False not_False_eq_True
          jsval.inject list.inject char.inject simp_thms bind.bind_lunit)
       simp
qed

text \<open>
  C7. A Cannon moving along its own row or column to a square of the board: when the
  destination is empty, \<open>canBasicMove\<close> returns true exactly when no piece lies strictly
  between origin and destination; when the destination holds an enemy piece, it returns
  true exactly when one piece lies strictly between them, so false with none and with
  two or more.
\<close>

theorem cannon_screen_rule:
  assumes "wfBoard b" and "ptype piece = JStr ''C''"
    and "(fromRow, fromCol) \<noteq> (toRow, toCol)" and "fromRow = toRow \<or> fromCol = toCol"
    and "inBounds toRow toCol CONFIG_rows CONFIG_cols"
  shows "(getPiece b toRow toCol = None \<longrightarrow>
            canBasicMove b piece fromRow fromCol toRow toCol =
              Some (piecesStrictlyBetween b fromRow fromCol toRow toCol = 0)) \<and>
         (\<forall>t. getPiece b toRow toCol = Some t \<and> pside t \<noteq> pside piece \<longrightarrow>
            canBasicMove b piece fromRow fromCol toRow toCol =
              Some (piecesStrictlyBetween b fromRow fromCol toRow toCol = 1))"
proof (intro conjI impI allI)
  assume "getPiece b toRow toCol = None"
  then show "canBasicMove b piece fromRow fromCol toRow toCol =
               Some (piecesStrictlyBetween b fromRow fromCol toRow toCol = 0)"
    using canBasicMove_cannon [OF assms(2-5), of b] by (simp add: sameSide_def)
next
  fix t
  assume "getPiece b toRow toCol = Some t \<and> pside t \<noteq> pside piece"
  then show "canBasicMove b piece fromRow fromCol toRow toCol =
               Some (piecesStrictlyBetween b fromRow fromCol toRow toCol = 1)"
    using canBasicMove_cannon [OF assms(2-5), of b] by (simp add: sameSide_def)
qed

theorem cannon_screen_rule_witness:
  "wfBoard board0 \<and>
   getPiece board0 0 1 = Some \<lparr>ptype = JStr ''H'', pside = black\<rparr> \<and>
   piecesStrictlyBetween board0 7 1 0 1 = 1 \<and>
   canBasicMove board0 \<lparr>ptype = JStr ''C'', pside = red\<rparr> 7 1 0 1 = Some True \<and>
   getPiece board0 2 1 = Some \<lparr>ptype = JStr ''C'', pside = black\<rparr> \<and>
   piecesStrictlyBetween board0 7 1 2 1 = 0 \<and>
   canBasicMove board0 \<lparr>ptype = JStr ''C'', pside = red\<rparr> 7 1 2 1 = Some False \<and>
   getPiece board0 7 4 = None \<and>
   piecesStrictlyBetween board0 7 1 7 4 = 0 \<and>
   canBasicMove board0 \<lparr>ptype = JStr ''C'', pside = red\<rparr> 7 1 7 4 = Some True"
proof -
  let ?cannon = "\<lparr>ptype = JStr ''C'', pside = red\<rparr>"
  have wf: "wfBoard board0" by code_simp
  have t: "ptype ?cannon = JStr ''C''" by simp
  have p1: "getPiece board0 0 1 = Some \<lparr>ptype = JStr ''H'', pside = black\<rparr>" by code_simp
  have n1: "piecesStrictlyBetween board0 7 1 0 1 = 1" by code_simp
  have p2: "getPiece board0 2 1 = Some \<lparr>ptype = JStr ''C'', pside = black\<rparr>" by code_simp
  have n2: "piecesStrictlyBetween board0 7 1 2 1 = 0" by code_simp
  have p3: "getPiece board0 7 4 = None" by code_simp
  have n3: "piecesStrictlyBetween board0 7 1 7 4 = 0" by code_simp
  have inb: "inBounds 0 1 CONFIG_rows CONFIG_cols" "inBounds 2 1 CONFIG_rows CONFIG_cols"
    "inBounds 7 4 CONFIG_rows CONFIG_cols"
    by (simp_all add: inBounds_def CONFIG_rows_def CONFIG_cols_def)
  have m1: "canBasicMove board0 ?cannon 7 1 0 1 = Some True"
    using cannon_screen_rule [OF wf t _ _ inb(1)] p1 n1 by simp
  have m2: "canBasicMove board0 ?cannon 7 1 2 1 = Some False"
    using cannon_screen_rule [OF wf t _ _ inb(2)] p2 n2 by simp
  have m3: "canBasicMove board0 ?cannon 7 1 7 4 = Some True"
    using cannon_screen_rule [OF wf t _ _ inb(3)] p3 n3 by simp
  show ?thesis
    using wf p1 n1 m1 p2 n2 m2 p3 n3 m3 by simp
qed

section \<open>Legal moves and check\<close>

lemma getGeneralPosition_Some:
  assumes "getGeneralPosition b sd = Some (r, c)"
  shows "(r, c) \<in> set (allCoords (rows b) (cols b)) \<and> isGeneralOf sd (grid b ! nat r ! nat c)"
  using assms unfolding getGeneralPosition_def find_Some_iff
  by (metis case_prod_conv nth_mem)

lemma generals_apart:
  assumes "getGeneralPosition b red = Some (redRow, redCol)"
    and "getGeneralPosition b black = Some (blackRow, blackCol)"
  shows "(redRow, redCol) \<noteq> (blackRow, blackCol)"
proof
  assume "(redRow, redCol) = (blackRow, blackCol)"
  with getGeneralPosition_Some [OF assms(1)] getGeneralPosition_Some [OF assms(2)]
  have "isGeneralOf red (grid b ! nat redRow ! nat redCol)"
    and "isGeneralOf black (grid b ! nat redRow ! nat redCol)" by simp_all
  then show False
    by (simp add: isGeneralOf_def split: option.splits)
qed

lemma isFacingGeneral_eq: "isFacingGeneral b = Some (generalsFacing b)"
proof (cases "getGeneralPosition b red")
  case None
  then show ?thesis by (simp add: isFacingGeneral_def generalsFacing_def)
next
  case redK: (Some rk)
  obtain redRow redCol where rk: "rk = (redRow, redCol)" by (cases rk)
  show ?thesis
  proof (cases "getGeneralPosition b black")
    case None
    then show ?thesis using redK by (simp add: isFacingGeneral_def generalsFacing_def rk)
  next
    case blackK: (Some bk)
    obtain blackRow blackCol where bk: "bk = (blackRow, blackCol)" by (cases bk)
    show ?thesis
    proof (cases "redCol = blackCol")
      case False
      then show ?thesis using redK blackK by (simp add: isFacingGeneral_def generalsFacing_def rk bk)
    next
      case True
      have "(redRow, redCol) \<noteq> (blackRow, blackCol)"
        using redK blackK unfolding rk bk by (rule generals_apart)
      then have "countPiecesBetween b redRow redCol blackRow blackCol =
                   Some (int (piecesStrictlyBetween b redRow redCol blackRow blackCol))"
        using True by (intro countPiecesBetween_line) simp_all
      then show ?thesis
        using redK blackK True by (simp add: isFacingGeneral_def generalsFacing_def rk bk)
    qed
  qed
qed

lemma attackScan_total: "attackScan b sd targetRow targetCol cs \<noteq> None"
proof (induction cs)
  case Nil
  then show ?case by simp
next
  case (Cons rc cs)
  obtain r c where rc: "rc = (r, c)" by (cases rc)
  show ?case
  proof (cases "getPiece b r c")
    case None
    then show ?thesis using Cons by (simp add: rc)
  next
    case (Some p)
    obtain hit where "canBasicMove b p r c targetRow targetCol = Some hit"
      using canBasicMove_total [of b p r c targetRow targetCol] by auto
    then show ?thesis
      using Some Cons by (simp add: rc canPieceAttackSquare_def del: not_None_eq)
  qed
qed

lemma isInCheck_total: "isInCheck b sd \<noteq> None"
  by (simp add: isInCheck_def attackScan_total del: not_None_eq split: option.splits)

lemma isLegalMove_total: "isLegalMove b fromRow fromCol toRow toCol sd \<noteq> None"
proof (cases "getPiece b fromRow fromCol")
  case None
  then show ?thesis by (simp add: isLegalMove_def)
next
  case (Some piece)
  obtain basic where basic: "canBasicMove b piece fromRow fromCol toRow toCol = Some basic"
    using canBasicMove_total [of b piece fromRow fromCol toRow toCol] by auto
  obtain chk where chk: "isInCheck (simulateMove b fromRow fromCol toRow toCol) sd = Some chk"
    using isInCheck_total [of "simulateMove b fromRow fromCol toRow toCol" sd] by auto
  show ?thesis
    using Some basic chk by (simp add: isLegalMove_def isFacingGeneral_eq Let_def del: not_None_eq)
qed

text \<open>
  C1. \<open>isLegalMove\<close> never returns true for a move whose simulated result (the move
  applied to a clone of the board) leaves the mover's own General attacked per
  \<open>isInCheck\<close>, nor for one whose simulated result has the two Generals on one column
  with no piece strictly between them: it returns false for both.
\<close>

theorem isLegalMove_rejects_exposure:
  assumes "wfBoard b"
    and "isInCheck (simulateMove b fromRow fromCol toRow toCol) sd = Some True \<or>
         generalsFacing (simulateMove b fromRow fromCol toRow toCol)"
  shows "isLegalMove b fromRow fromCol toRow toCol sd = Some False"
proof (cases "getPiece b fromRow fromCol")
  case None
  then show ?thesis by (simp add: isLegalMove_def)
next
  case (Some piece)
  obtain basic where basic: "canBasicMove b piece fromRow fromCol toRow toCol = Some basic"
    using canBasicMove_total [of b piece fromRow fromCol toRow toCol] by auto
  show ?thesis
    using Some basic assms(2) by (auto simp: isLegalMove_def isFacingGeneral_eq Let_def)
qed


theorem isLegalMove_rejects_exposure_witness:
  "wfBoard pinnedRookBoard \<and>
   canBasicMove pinnedRookBoard \<lparr>ptype = JStr ''R'', pside = red\<rparr> 5 4 5 3 = Some True \<and>
   generalsFacing (simulateMove pinnedRookBoard 5 4 5 3) \<and>
   isLegalMove pinnedRookBoard 5 4 5 3 red = Some False \<and>
   wfBoard shieldedBoard \<and>
   canBasicMove shieldedBoard \<lparr>ptype = JStr ''A'', pside = red\<rparr> 8 4 7 3 = Some True \<and>
   isInCheck (simulateMove shieldedBoard 8 4 7 3) red = Some True \<and>
   isLegalMove shieldedBoard 8 4 7 3 red = Some False"
proof -
  have w1: "wfBoard pinnedRookBoard" by code_simp
  have m1: "canBasicMove pinnedRookBoard \<lparr>ptype = JStr ''R'', pside = red\<rparr> 5 4 5 3 = Some True"
    by code_simp
  have f1: "generalsFacing (simulateMove pinnedRookBoard 5 4 5 3)" by code_simp
  have w2: "wfBoard shieldedBoard" by code_simp
  have m2: "canBasicMove shieldedBoard \<lparr>ptype = JStr ''A'', pside = red\<rparr> 8 4 7 3 = Some True"
    by code_simp
  have c2: "isInCheck (simulateMove shieldedBoard 8 4 7 3) red = Some True" by code_simp
  show ?thesis
    using isLegalMove_rejects_exposure [OF w1, of 5 4 5 3 red]
      isLegalMove_rejects_exposure [OF w2, of 8 4 7 3 red] w1 m1 f1 w2 m2 c2
    by simp
qed

lemma attackScan_no_hit:
  assumes "\<forall>(r, c) \<in> set cs. \<forall>p. getPiece b r c = Some p \<longrightarrow> pside p \<noteq> sd \<longrightarrow>
             canBasicMove b p r c targetRow targetCol = Some False"
  shows "attackScan b sd targetRow targetCol cs = Some False"
  using assms
proof (induction cs)
  case Nil
  then show ?case by simp
next
  case (Cons rc cs)
  obtain r c where rc: "rc = (r, c)" by (cases rc)
  from Cons.prems have rest: "attackScan b sd targetRow targetCol cs = Some False"
    by (intro Cons.IH) simp
  show ?case
  proof (cases "getPiece b r c")
    case None
    then show ?thesis using rest by (simp add: rc)
  next
    case (Some p)
    then show ?thesis
      using rest Cons.prems by (simp add: rc canPieceAttackSquare_def)
  qed
qed

lemma general_cannot_leave_palace:
  assumes "ptype p = JStr ''K''" and "\<not> inPalace toRow toCol (pside p)"
  shows "canBasicMove b p fromRow fromCol toRow toCol = Some False"
  using assms by (simp add: canBasicMove_def Let_def)

lemma opposing_palace:
  assumes "inPalace row col sd" and "sd = red \<or> sd = black"
    and "sd' = red \<or> sd' = black" and "sd' \<noteq> sd"
  shows "\<not> inPalace row col sd'"
  using assms by (auto simp: inPalace_def split: if_splits)

text \<open>
  C3, as the code has it. On a board whose pieces are Red or Black, when the side's
  General stands inside its own palace and no opposing piece other than a General can
  reach its square per \<open>canBasicMove\<close>, \<open>isInCheck\<close> returns false for that side,
  also when the two Generals face each other on an open column: an opposing General
  moves inside its own palace only.
\<close>

theorem isInCheck_ignores_facing_general:
  assumes "wfBoard b" and "sd = red \<or> sd = black" and "sidesRedBlack b"
    and "getGeneralPosition b sd = Some (targetRow, targetCol)"
    and "inPalace targetRow targetCol sd"
    and "noOtherAttacker b sd targetRow targetCol"
  shows "isInCheck b sd = Some False"
proof -
  have "canBasicMove b p r c targetRow targetCol = Some False"
    if cell: "(r, c) \<in> set (allCoords (rows b) (cols b))" and p: "getPiece b r c = Some p"
      and opp: "pside p \<noteq> sd" for r c p
  proof (cases "ptype p = JStr ''K''")
    case True
    have "pside p = red \<or> pside p = black"
      using assms(3) cell p by (auto simp: sidesRedBlack_def list_all_iff)
    then have "\<not> inPalace targetRow targetCol (pside p)"
      using assms(2,5) opp by (intro opposing_palace [of targetRow targetCol sd]) simp_all
    with True show ?thesis by (rule general_cannot_leave_palace)
  next
    case False
    have "canBasicMove b p r c targetRow targetCol \<noteq> Some True"
      using assms(6) cell p opp False by (auto simp: noOtherAttacker_def list_all_iff)
    then show ?thesis
      using canBasicMove_total [of b p r c targetRow targetCol] by (cases "canBasicMove b p r c targetRow targetCol") auto
  qed
  then have "attackScan b sd targetRow targetCol (allCoords (rows b) (cols b)) = Some False"
    by (intro attackScan_no_hit) auto
  then show ?thesis
    using assms(4) by (simp add: isInCheck_def)
qed

theorem isInCheck_ignores_facing_general_witness:
  "wfBoard openFileBoard \<and> sidesRedBlack openFileBoard \<and>
   getGeneralPosition openFileBoard red = Some (9, 4) \<and> inPalace 9 4 red \<and>
   noOtherAttacker openFileBoard red 9 4 \<and>
   isFacingGeneral openFileBoard = Some True \<and>
   isInCheck openFileBoard red = Some False"
proof -
  have h1: "wfBoard openFileBoard" by code_simp
  have h2: "red = red \<or> red = black" by simp
  have h3: "sidesRedBlack openFileBoard" by code_simp
  have h4: "getGeneralPosition openFileBoard red = Some (9, 4)" by code_simp
  have h5: "inPalace 9 4 red" by code_simp
  have h6: "noOtherAttacker openFileBoard red 9 4" by code_simp
  have f: "isFacingGeneral openFileBoard = Some True" by code_simp
  show ?thesis
    using isInCheck_ignores_facing_general [OF h1 h2 h3 h4 h5 h6] h1 h3 h4 h5 h6 f by simp
qed

text \<open>
  Without the palace the claim fails: with the Red General on (1, 4), next to the Black
  General on (0, 4) and inside the Black palace, the Generals face each other, the board
  has no other piece, and \<open>isInCheck\<close> returns true for Red, since the Black General
  can step onto (1, 4).
\<close>

theorem isInCheck_adjacent_generals_counterexample:
  "wfBoard adjacentGeneralsBoard \<and>
   isFacingGeneral adjacentGeneralsBoard = Some True \<and>
   getGeneralPosition adjacentGeneralsBoard red = Some (1, 4) \<and>
   noOtherAttacker adjacentGeneralsBoard red 1 4 \<and>
   isInCheck adjacentGeneralsBoard red = Some True"
  by code_simp

section \<open>Committed moves, undo and redo\<close>

text \<open>
  The enumerations always return, and they list every legal move; so one legal move is
  enough to know that a side is not stalemated.
\<close>

lemma legalDestinations_lists:
  "\<exists>ms. legalDestinations b row col sd cs = Some ms \<and>
        (\<forall>(r, c) \<in> set cs. isLegalMove b row col r c sd = Some True \<longrightarrow> (r, c) \<in> set ms)"
proof (induction cs)
  case Nil
  then show ?case by simp
next
  case (Cons rc cs)
  obtain r c where rc: "rc = (r, c)" by (cases rc)
  obtain legal where legal: "isLegalMove b row col r c sd = Some legal"
    using isLegalMove_total [of b row col r c sd] by auto
  from Cons.IH obtain ms where ms: "legalDestinations b row col sd cs = Some ms"
    and listed: "\<forall>(r, c) \<in> set cs. isLegalMove b row col r c sd = Some True \<longrightarrow> (r, c) \<in> set ms"
    by blast
  show ?case
    using legal ms listed by (auto simp: rc)
qed

lemma getLegalMovesForPiece_lists:
  "\<exists>ms. getLegalMovesForPiece b row col = Some ms \<and>
        (\<forall>p. getPiece b row col = Some p \<longrightarrow>
           (\<forall>(r, c) \<in> set (allCoords (rows b) (cols b)).
              isLegalMove b row col r c (pside p) = Some True \<longrightarrow> (r, c) \<in> set ms))"
proof (cases "getPiece b row col")
  case None
  then show ?thesis by (simp add: getLegalMovesForPiece_def)
next
  case (Some p)
  then show ?thesis
    using legalDestinations_lists [of b row col "pside p" "allCoords (rows b) (cols b)"]
    by (simp add: getLegalMovesForPiece_def)
qed

lemma movesFrom_lists:
  "\<exists>ms. movesFrom b sd cs = Some ms \<and>
        (\<forall>(r, c) \<in> set cs. \<forall>p dest dests. getPiece b r c = Some p \<longrightarrow> pside p = sd \<longrightarrow>
           getLegalMovesForPiece b r c = Some dests \<longrightarrow> dest \<in> set dests \<longrightarrow> ((r, c), dest) \<in> set ms)"
proof (induction cs)
  case Nil
  then show ?case by simp
next
  case (Cons rc cs)
  obtain r c where rc: "rc = (r, c)" by (cases rc)
  from Cons.IH obtain ms where ms: "movesFrom b sd cs = Some ms"
    and listed: "\<forall>(r, c) \<in> set cs. \<forall>p dest dests. getPiece b r c = Some p \<longrightarrow> pside p = sd \<longrightarrow>
           getLegalMovesForPiece b r c = Some dests \<longrightarrow> dest \<in> set dests \<longrightarrow> ((r, c), dest) \<in> set ms"
    by blast
  obtain dests where dests: "getLegalMovesForPiece b r c = Some dests"
    using getLegalMovesForPiece_lists [of b r c] by blast
  show ?case
  proof (cases "getPiece b r c")
    case None
    then show ?thesis using ms listed by (auto simp: rc)
  next
    case (Some p)
    then show ?thesis using ms listed dests by (auto simp: rc)
  qed
qed

lemma generateLegalMoves_nonempty:
  assumes "isLegalMove b fromRow fromCol toRow toCol sd = Some True"
    and "(toRow, toCol) \<in> set (allCoords (rows b) (cols b))"
  shows "\<exists>ms. generateLegalMoves b sd = Some ms \<and> ms \<noteq> []"
proof -
  from assms(1) obtain p where p: "getPiece b fromRow fromCol = Some p" and sd: "pside p = sd"
    by (auto simp: isLegalMove_def split: option.splits if_splits)
  from p have from_in: "(fromRow, fromCol) \<in> set (allCoords (rows b) (cols b))"
    by (auto simp: getPiece_def allCoords_mem inBounds_def split: if_splits)
  obtain dests where dests: "getLegalMovesForPiece b fromRow fromCol = Some dests"
    and dest: "(toRow, toCol) \<in> set dests"
    using getLegalMovesForPiece_lists [of b fromRow fromCol] p sd assms by blast
  obtain ms where ms: "movesFrom b sd (allCoords (rows b) (cols b)) = Some ms"
    and listed: "\<forall>(r, c) \<in> set (allCoords (rows b) (cols b)). \<forall>p dest dests.
           getPiece b r c = Some p \<longrightarrow> pside p = sd \<longrightarrow>
           getLegalMovesForPiece b r c = Some dests \<longrightarrow> dest \<in> set dests \<longrightarrow> ((r, c), dest) \<in> set ms"
    using movesFrom_lists [of b sd "allCoords (rows b) (cols b)"] by blast
  have "((fromRow, fromCol), (toRow, toCol)) \<in> set ms"
    using listed from_in p sd dests dest by blast
  then show ?thesis
    using ms by (auto simp: generateLegalMoves_def)
qed

text \<open>
  A click on a legal destination of the selected piece commits the move, and the game
  goes on when the opponent is not in check and has a legal move.
\<close>

lemma selectSquare_commits:
  assumes "\<not> gameOver e" and "selected e = Some (sr, sc)"
    and "\<not> (case getPiece (board e) row col of Some p \<Rightarrow> pside p = sideToMove e | None \<Rightarrow> False)"
    and "isLegalMove (board e) sr sc row col (sideToMove e) = Some True"
    and "isInCheck (board (commitMove e sr sc row col)) (sideToMove (commitMove e sr sc row col)) = Some False"
    and "isLegalMove (board (commitMove e sr sc row col)) fromRow fromCol toRow toCol
           (sideToMove (commitMove e sr sc row col)) = Some True"
    and "(toRow, toCol) \<in> set (allCoords (rows (board (commitMove e sr sc row col)))
                                          (cols (board (commitMove e sr sc row col))))"
  shows "selectSquare e row col = Some (True, commitMove e sr sc row col)"
proof -
  let ?e1 = "commitMove e sr sc row col"
  obtain ms where ms: "generateLegalMoves (board ?e1) (sideToMove ?e1) = Some ms" and ne: "ms \<noteq> []"
    using generateLegalMoves_nonempty [OF assms(6,7)] by blast
  have mate: "isCheckmate (board ?e1) (sideToMove ?e1) = Some False"
    using assms(5) by (simp add: isCheckmate_def)
  have stale: "isStalemate (board ?e1) (sideToMove ?e1) = Some False"
    using assms(5) ms ne by (simp add: isStalemate_def)
  show ?thesis
    using assms(1-5) mate stale by (simp add: selectSquare_def Let_def)
qed


text \<open>
  The short game is a run of the engine: four clicks on a new game give the engine
  after two moves.
\<close>

lemma newEngine_fields:
  "newEngine = \<lparr>board = board0, sideToMove = red, selected = None, history = [],
                redoStack = [], gameOver = False, gameOverReason = []\<rparr>"
  by (simp add: newEngine_def newGame_def board0_def)

lemma short_game_dims:
  "rows board1 = 10" "cols board1 = 9" "rows board2 = 10" "cols board2 = 9"
  by code_simp+

lemma first_move_played:
  "click 6 4 newEngine = Some (newEngine\<lparr>selected := Some (6, 4)\<rparr>)"
  "click 5 4 (newEngine\<lparr>selected := Some (6, 4)\<rparr>) = Some afterOneMove"
proof -
  have soldier: "getPiece board0 6 4 = Some \<lparr>ptype = JStr ''S'', pside = red\<rparr>" by code_simp
  then show "click 6 4 newEngine = Some (newEngine\<lparr>selected := Some (6, 4)\<rparr>)"
    by (simp add: click_def selectSquare_def newEngine_fields)
  let ?sel = "newEngine\<lparr>selected := Some (6, 4)\<rparr>"
  have commit: "commitMove ?sel 6 4 5 4 = afterOneMove"
    by (simp add: commitMove_def newEngine_fields afterOneMove_def Let_def clone_ident
          board1_def move1_def opponent_def)
  have empty: "getPiece board0 5 4 = None" by code_simp
  have legal: "isLegalMove board0 6 4 5 4 red = Some True" by code_simp
  have safe: "isInCheck board1 black = Some False" by code_simp
  have reply: "isLegalMove board1 3 4 4 4 black = Some True" by code_simp
  have "selectSquare ?sel 5 4 = Some (True, commitMove ?sel 6 4 5 4)"
  proof (rule selectSquare_commits [where fromRow = 3 and fromCol = 4 and toRow = 4 and toCol = 4])
    show "\<not> gameOver ?sel" by (simp add: newEngine_fields)
    show "selected ?sel = Some (6, 4)" by simp
    show "\<not> (case getPiece (board ?sel) 5 4 of Some p \<Rightarrow> pside p = sideToMove ?sel | None \<Rightarrow> False)"
      using empty by (simp add: newEngine_fields)
    show "isLegalMove (board ?sel) 6 4 5 4 (sideToMove ?sel) = Some True"
      using legal by (simp add: newEngine_fields)
    show "isInCheck (board (commitMove ?sel 6 4 5 4)) (sideToMove (commitMove ?sel 6 4 5 4)) = Some False"
      using safe by (simp add: commit afterOneMove_def)
    show "isLegalMove (board (commitMove ?sel 6 4 5 4)) 3 4 4 4 (sideToMove (commitMove ?sel 6 4 5 4)) = Some True"
      using reply by (simp add: commit afterOneMove_def)
    show "(4, 4) \<in> set (allCoords (rows (board (commitMove ?sel 6 4 5 4))) (cols (board (commitMove ?sel 6 4 5 4))))"
      by (simp add: commit afterOneMove_def allCoords_mem short_game_dims)
  qed
  then show "click 5 4 ?sel = Some afterOneMove"
    by (simp add: click_def commit)
qed

lemma second_move_played:
  "click 3 4 afterOneMove = Some (afterOneMove\<lparr>selected := Some (3, 4)\<rparr>)"
  "click 4 4 (afterOneMove\<lparr>selected := Some (3, 4)\<rparr>) = Some afterTwoMoves"
proof -
  have soldier: "getPiece board1 3 4 = Some \<lparr>ptype = JStr ''S'', pside = black\<rparr>" by code_simp
  then show "click 3 4 afterOneMove = Some (afterOneMove\<lparr>selected := Some (3, 4)\<rparr>)"
    by (simp add: click_def selectSquare_def afterOneMove_def)
  let ?sel = "afterOneMove\<lparr>selected := Some (3, 4)\<rparr>"
  have commit: "commitMove ?sel 3 4 4 4 = afterTwoMoves"
    by (simp add: commitMove_def afterOneMove_def afterTwoMoves_def Let_def clone_ident
          board2_def move2_def opponent_def)
  have empty: "getPiece board1 4 4 = None" by code_simp
  have legal: "isLegalMove board1 3 4 4 4 black = Some True" by code_simp
  have safe: "isInCheck board2 red = Some False" by code_simp
  have reply: "isLegalMove board2 7 1 7 4 red = Some True" by code_simp
  have "selectSquare ?sel 4 4 = Some (True, commitMove ?sel 3 4 4 4)"
  proof (rule selectSquare_commits [where fromRow = 7 and fromCol = 1 and toRow = 7 and toCol = 4])
    show "\<not> gameOver ?sel" by (simp add: afterOneMove_def)
    show "selected ?sel = Some (3, 4)" by simp
    show "\<not> (case getPiece (board ?sel) 4 4 of Some p \<Rightarrow> pside p = sideToMove ?sel | None \<Rightarrow> False)"
      using empty by (simp add: afterOneMove_def)
    show "isLegalMove (board ?sel) 3 4 4 4 (sideToMove ?sel) = Some True"
      using legal by (simp add: afterOneMove_def)
    show "isInCheck (board (commitMove ?sel 3 4 4 4)) (sideToMove (commitMove ?sel 3 4 4 4)) = Some False"
      using safe by (simp add: commit afterTwoMoves_def)
    show "isLegalMove (board (commitMove ?sel 3 4 4 4)) 7 1 7 4 (sideToMove (commitMove ?sel 3 4 4 4)) = Some True"
      using reply by (simp add: commit afterTwoMoves_def)
    show "(7, 4) \<in> set (allCoords (rows (board (commitMove ?sel 3 4 4 4))) (cols (board (commitMove ?sel 3 4 4 4))))"
      by (simp add: commit afterTwoMoves_def allCoords_mem short_game_dims)
  qed
  then show "click 4 4 ?sel = Some afterTwoMoves"
    by (simp add: click_def commit)
qed

lemma two_moves_played:
  "do { a \<leftarrow> click 6 4 newEngine; b \<leftarrow> click 5 4 a; c \<leftarrow> click 3 4 b; click 4 4 c } = Some afterTwoMoves"
  by (simp add: first_move_played second_move_played)

text \<open>
  Right after a move (the board is the last entry's snapshot and the turn is the
  opponent's), \<open>undo\<close> then \<open>redo\<close> give the board and the side to move back.
\<close>

lemma undo_redo_restores_after_move:
  assumes "history e \<noteq> []" and "board e = after (last (history e))"
    and "sideToMove e = opponent (side (last (history e)))"
  shows "fst (undo e) \<and> fst (redo (snd (undo e))) \<and>
         board (snd (redo (snd (undo e)))) = board e \<and>
         sideToMove (snd (redo (snd (undo e)))) = sideToMove e"
  using assms by (simp add: undo_def redo_def Let_def clone_ident opponent_def)

text \<open>
  C4. \<open>undo\<close> then \<open>redo\<close> should give back the board and the side to move. They do
  not in the engine reached by two moves, \<open>undo\<close> and \<open>redo\<close>: its history holds the
  first move only, because \<open>redo\<close> did not push the second one back. There \<open>undo\<close>
  and \<open>redo\<close> both return true and end on the board after the first move with Black to
  move, while the board before the \<open>undo\<close> was the board after the second move, with
  Red to move.
\<close>

theorem undo_redo_after_redo_diverges:
  "fst (undo afterTwoMoves) \<and> fst (redo (snd (undo afterTwoMoves))) \<and>
   afterUndoRedo = snd (redo (snd (undo afterTwoMoves))) \<and>
   history afterUndoRedo = [move1] \<and>
   board afterUndoRedo = board2 \<and> sideToMove afterUndoRedo = red \<and>
   fst (undo afterUndoRedo) \<and> fst (redo (snd (undo afterUndoRedo))) \<and>
   board (snd (redo (snd (undo afterUndoRedo)))) = board1 \<and>
   board1 \<noteq> board2 \<and>
   sideToMove (snd (redo (snd (undo afterUndoRedo)))) = black"
proof -
  have ne: "board1 \<noteq> board2" by code_simp
  show ?thesis
    using ne
    by (simp add: afterUndoRedo_def afterTwoMoves_def undo_def redo_def Let_def clone_ident
          move1_def move2_def)
qed

end
